theory Spec2Isabelle
  imports Complex_Main
begin

section \<open>The MAE calculator (\<^verbatim>\<open>src/mae_calculator.py\<close>)\<close>

text \<open>
  A shallow embedding of \<^verbatim>\<open>calculate_mae\<close>, \<^verbatim>\<open>interpret_mae\<close> and
  \<^verbatim>\<open>calculate_batch_mae\<close>.

  \<^item> A Python \<^verbatim>\<open>Dict[str, int]\<close> is an association list in insertion order, which is
    the order in which Python iterates it. A dictionary never holds a key twice, so the
    lists that stand for dictionaries are those with distinct keys (\<open>wf_dict\<close>).
  \<^item> Python's \<^verbatim>\<open>int\<close> is \<open>int\<close>.
  \<^item> Python's \<^verbatim>\<open>float\<close> is an IEEE double (\<open>pyfloat\<close>): a finite double is the real it
    denotes, every operation rounds its exact result to the nearest double, ties to even,
    and a result beyond the range is an infinity. The two zeros are not told apart.
  \<^item> A raised exception is the left summand of the result: \<^verbatim>\<open>ValueError\<close> with its
    message, \<^verbatim>\<open>KeyError\<close> with the key for a subscript \<^verbatim>\<open>d[k]\<close> whose key is missing,
    \<^verbatim>\<open>OverflowError\<close> for an \<^verbatim>\<open>int\<close> too large to convert to \<^verbatim>\<open>float\<close>, and
    \<^verbatim>\<open>ZeroDivisionError\<close> for a division by zero.
\<close>

subsection \<open>Exceptions\<close>

datatype py_error = ValueError string | KeyError string | OverflowError | ZeroDivisionError

subsection \<open>Floats\<close>

datatype pyfloat = Finite real | PosInf | NegInf | NaN

text \<open>The integer nearest a real, the even one of the two when the real lies half-way.\<close>

definition round_even :: "real \<Rightarrow> int" where
  "round_even x =
     (let f = \<lfloor>x\<rfloor>; r = x - of_int f
      in if r < 1 / 2 then f else if 1 / 2 < r then f + 1 else if even f then f else f + 1)"

text \<open>The exponent of the last of the 53 bits of the significand of a double near \<open>x\<close>; it
  stays at \<open>- 1074\<close> for the subnormal numbers, below \<open>2 powi - 1022\<close>.\<close>

definition ulp_exp :: "real \<Rightarrow> int" where
  "ulp_exp x = max \<lfloor>log 2 \<bar>x\<bar>\<rfloor> (- 1022) - 52"

text \<open>Rounding to 53 bits, the range not yet taken into account.\<close>

definition round_double :: "real \<Rightarrow> real" where
  "round_double x =
     (if x = 0 then 0
      else real_of_int (round_even (x / 2 powi ulp_exp x)) * 2 powi ulp_exp x)"

text \<open>The double that an arithmetic operation returns for the exact result \<open>x\<close>: an
  infinity when the rounded magnitude reaches \<open>2 ^ 1024\<close>.\<close>

definition float_of_real :: "real \<Rightarrow> pyfloat" where
  "float_of_real x =
     (let y = round_double x
      in if 2 ^ 1024 \<le> y then PosInf else if y \<le> - (2 ^ 1024) then NegInf else Finite y)"

text \<open>The conversion of an \<^verbatim>\<open>int\<close> operand to \<^verbatim>\<open>float\<close>, which an operation of a
  \<^verbatim>\<open>float\<close> with an \<^verbatim>\<open>int\<close> starts with: it rounds in the same way, and raises
  \<^verbatim>\<open>OverflowError\<close> where an operation on floats would return an infinity.\<close>

definition int_to_float :: "int \<Rightarrow> py_error + pyfloat" where
  "int_to_float n =
     (let y = round_double (of_int n)
      in if 2 ^ 1024 \<le> \<bar>y\<bar> then Inl OverflowError else Inr (Finite y))"

text \<open>The same conversion for the value of \<^verbatim>\<open>len(...)\<close>, which is at most
  \<^verbatim>\<open>sys.maxsize\<close> and so never too large.\<close>

definition len_to_float :: "int \<Rightarrow> pyfloat" where
  "len_to_float n = float_of_real (of_int n)"

text \<open>\<^verbatim>\<open>x + y\<close> on floats. It raises nothing.\<close>

fun fadd :: "pyfloat \<Rightarrow> pyfloat \<Rightarrow> pyfloat" where
  "fadd (Finite a) (Finite b) = float_of_real (a + b)"
| "fadd NaN y = NaN"
| "fadd x NaN = NaN"
| "fadd PosInf NegInf = NaN"
| "fadd NegInf PosInf = NaN"
| "fadd PosInf y = PosInf"
| "fadd x PosInf = PosInf"
| "fadd NegInf y = NegInf"
| "fadd x NegInf = NegInf"

text \<open>\<^verbatim>\<open>x / y\<close> on floats: \<^verbatim>\<open>ZeroDivisionError\<close> when \<open>y\<close> is zero, whatever \<open>x\<close> is.\<close>

fun fdiv :: "pyfloat \<Rightarrow> pyfloat \<Rightarrow> py_error + pyfloat" where
  "fdiv x (Finite b) =
     (if b = 0 then Inl ZeroDivisionError
      else Inr (case x of
                  Finite a \<Rightarrow> float_of_real (a / b)
                | PosInf \<Rightarrow> (if 0 < b then PosInf else NegInf)
                | NegInf \<Rightarrow> (if 0 < b then NegInf else PosInf)
                | NaN \<Rightarrow> NaN))"
| "fdiv (Finite a) PosInf = Inr (Finite 0)"
| "fdiv (Finite a) NegInf = Inr (Finite 0)"
| "fdiv x y = Inr NaN"

text \<open>\<^verbatim>\<open>x + n\<close> for a float \<open>x\<close> and an \<^verbatim>\<open>int\<close> \<open>n\<close>.\<close>

definition fadd_int :: "pyfloat \<Rightarrow> int \<Rightarrow> py_error + pyfloat" where
  "fadd_int x n = (case int_to_float n of Inl e \<Rightarrow> Inl e | Inr y \<Rightarrow> Inr (fadd x y))"

text \<open>\<^verbatim>\<open>x / n\<close> for a float \<open>x\<close> and a length \<open>n\<close>.\<close>

definition fdiv_len :: "pyfloat \<Rightarrow> int \<Rightarrow> py_error + pyfloat" where
  "fdiv_len x n = fdiv x (len_to_float n)"

subsection \<open>Dictionaries\<close>

type_synonym 'v dict = "(string \<times> 'v) list"

definition keys :: "'v dict \<Rightarrow> string list" where
  "keys d = map fst d"

definition wf_dict :: "'v dict \<Rightarrow> bool" where
  "wf_dict d = distinct (keys d)"

text \<open>\<^verbatim>\<open>d[k]\<close>: the value stored under \<open>k\<close>, or \<^verbatim>\<open>KeyError\<close>.\<close>

definition getitem :: "'v dict \<Rightarrow> string \<Rightarrow> py_error + 'v" where
  "getitem d k = (case map_of d k of None \<Rightarrow> Inl (KeyError k) | Some v \<Rightarrow> Inr v)"

text \<open>\<^verbatim>\<open>d[k] = v\<close>: replaces the value of a key that is present, in place, and appends a
  new key at the end.\<close>

fun setitem :: "'v dict \<Rightarrow> string \<Rightarrow> 'v \<Rightarrow> 'v dict" where
  "setitem [] k v = [(k, v)]"
| "setitem ((k', v') # d) k v = (if k' = k then (k, v) # d else (k', v') # setitem d k v)"

subsection \<open>\<^verbatim>\<open>MAEResult\<close>\<close>

text \<open>The dataclass. The loop stores the integer \<^verbatim>\<open>abs(...)\<close> itself in
  \<^verbatim>\<open>kpi_differences\<close>, so its values are integers. The field \<^verbatim>\<open>interpretation\<close> is
  \<open>interpretation_str\<close> here, its own name being a keyword of Isabelle.\<close>

record MAEResult =
  mae :: pyfloat
  total_difference :: pyfloat
  num_kpis :: int
  kpi_differences :: "int dict"
  interpretation_str :: string

subsection \<open>\<^verbatim>\<open>interpret_mae\<close>\<close>

text \<open>On the reals, which the finite floats are a part of.\<close>

definition interpret_mae :: "real \<Rightarrow> string" where
  "interpret_mae m =
     (if m < 0.50 then ''Excellent (matches human analyst very closely)''
      else if m < 0.75 then ''Good (production-ready)''
      else if m < 1.00 then ''Acceptable (needs minor calibration)''
      else ''Poor (needs major fixes)'')"

text \<open>On any float. The three comparisons \<^verbatim>\<open>mae < c\<close> are all false for \<^verbatim>\<open>inf\<close> and for
  \<^verbatim>\<open>nan\<close>, which leaves the last branch, and the first is true for \<^verbatim>\<open>-inf\<close>.\<close>

definition interpret_mae_float :: "pyfloat \<Rightarrow> string" where
  "interpret_mae_float f =
     (case f of
        Finite m \<Rightarrow> interpret_mae m
      | PosInf \<Rightarrow> ''Poor (needs major fixes)''
      | NegInf \<Rightarrow> ''Excellent (matches human analyst very closely)''
      | NaN \<Rightarrow> ''Poor (needs major fixes)'')"

subsection \<open>\<^verbatim>\<open>calculate_mae\<close>\<close>

text \<open>The \<^verbatim>\<open>for kpi in ai_scores.keys()\<close> loop, on the keys still to visit. The state is
  the pair of \<^verbatim>\<open>kpi_differences\<close> and \<^verbatim>\<open>total_difference\<close>.\<close>

fun mae_loop ::
  "string list \<Rightarrow> int dict \<Rightarrow> int dict \<Rightarrow> int dict \<times> pyfloat \<Rightarrow> py_error + (int dict \<times> pyfloat)"
where
  "mae_loop [] ai human st = Inr st"
| "mae_loop (kpi # ks) ai human (kd, td) =
     (case getitem ai kpi of
        Inl e \<Rightarrow> Inl e
      | Inr a \<Rightarrow>
         (case getitem human kpi of
            Inl e \<Rightarrow> Inl e
          | Inr h \<Rightarrow>
             (let diff = \<bar>a - h\<bar>
              in case fadd_int td diff of
                   Inl e \<Rightarrow> Inl e
                 | Inr td' \<Rightarrow> mae_loop ks ai human (setitem kd kpi diff, td'))))"

definition calculate_mae :: "int dict \<Rightarrow> int dict \<Rightarrow> py_error + MAEResult" where
  "calculate_mae ai human =
     (if set (keys ai) \<noteq> set (keys human)
      then Inl (ValueError ''AI and human scores must have the same KPIs'')
      else
        (case mae_loop (keys ai) ai human ([], Finite 0) of
           Inl e \<Rightarrow> Inl e
         | Inr (kd, td) \<Rightarrow>
            (let n = int (length ai)
             in case (if n > 0 then fdiv_len td n else Inr (Finite 0)) of
                  Inl e \<Rightarrow> Inl e
                | Inr m \<Rightarrow>
                   Inr \<lparr>mae = m, total_difference = td, num_kpis = n,
                        kpi_differences = kd, interpretation_str = interpret_mae_float m\<rparr>)))"

subsection \<open>\<^verbatim>\<open>calculate_batch_mae\<close>\<close>

text \<open>One element of \<^verbatim>\<open>chats\<close>: a dictionary with the keys \<^verbatim>\<open>'chat_id'\<close>,
  \<^verbatim>\<open>'ai_scores'\<close> and \<^verbatim>\<open>'human_scores'\<close>.\<close>

record chat =
  chat_id :: string
  ai_scores :: "int dict"
  human_scores :: "int dict"

text \<open>The \<^verbatim>\<open>for chat in chats\<close> loop, with \<^verbatim>\<open>results\<close> as accumulator. An exception of
  \<^verbatim>\<open>calculate_mae\<close> leaves the loop and the function.\<close>

fun batch_loop :: "chat list \<Rightarrow> MAEResult list \<Rightarrow> py_error + MAEResult list" where
  "batch_loop [] results = Inr results"
| "batch_loop (c # cs) results =
     (case calculate_mae (ai_scores c) (human_scores c) of
        Inl e \<Rightarrow> Inl e
      | Inr r \<Rightarrow> batch_loop cs (results @ [r]))"

text \<open>The builtin \<^verbatim>\<open>sum\<close> on floats, from the \<^verbatim>\<open>int\<close> \<^verbatim>\<open>0\<close>: the floats are added from left to
  right. This is what CPython does up to version 3.11; later versions also carry a
  correction term for the rounding errors, which can change the last bits of the result.\<close>

definition sum_left_to_right :: "pyfloat list \<Rightarrow> pyfloat" where
  "sum_left_to_right xs = foldl fadd (Finite 0) xs"

text \<open>\<^verbatim>\<open>calculate_batch_mae\<close>. Its first argument is the builtin \<^verbatim>\<open>sum\<close> of the
  interpreter, for which \<open>sum_left_to_right\<close> is one choice: the properties below hold for
  any.\<close>

definition calculate_batch_mae ::
  "(pyfloat list \<Rightarrow> pyfloat) \<Rightarrow> chat list \<Rightarrow> py_error + (pyfloat \<times> MAEResult list)"
where
  "calculate_batch_mae builtin_sum chats =
     (case batch_loop chats [] of
        Inl e \<Rightarrow> Inl e
      | Inr results \<Rightarrow>
         (case (if results \<noteq> []
                then fdiv_len (builtin_sum (map mae results)) (int (length results))
                else Inr (Finite 0)) of
            Inl e \<Rightarrow> Inl e
          | Inr avg_mae \<Rightarrow> Inr (avg_mae, results)))"

subsection \<open>Notions used to state the properties\<close>

text \<open>The absolute difference of the two scores stored under a key that both dictionaries
  hold.\<close>

definition diff_of :: "int dict \<Rightarrow> int dict \<Rightarrow> string \<Rightarrow> int" where
  "diff_of ai human k = \<bar>the (map_of ai k) - the (map_of human k)\<bar>"

text \<open>The least non-negative \<^verbatim>\<open>int\<close> that is too large to convert to \<^verbatim>\<open>float\<close>: half-way
  between the largest double, \<open>2 ^ 1024 - 2 ^ 971\<close>, and \<open>2 ^ 1024\<close>.\<close>

definition float_limit :: int where
  "float_limit = 2 ^ 1024 - 2 ^ 970"

text \<open>No absolute difference of two scores under the same key reaches that limit.\<close>

definition scores_fit :: "int dict \<Rightarrow> int dict \<Rightarrow> bool" where
  "scores_fit ai human =
     (\<forall>k\<in>set (keys ai). \<bar>the (map_of ai k) - the (map_of human k)\<bar> < 2 ^ 1024 - 2 ^ 970)"

text \<open>The quality order of the four labels of \<open>interpret_mae\<close>: a smaller rank is a better
  tier. Any other string ranks last.\<close>

definition tier_rank :: "string \<Rightarrow> nat" where
  "tier_rank s =
     (if s = ''Excellent (matches human analyst very closely)'' then 0
      else if s = ''Good (production-ready)'' then 1
      else if s = ''Acceptable (needs minor calibration)'' then 2
      else 3)"

section \<open>Rounding\<close>

lemma two_powi_le_pos:
  assumes "2 powi p \<le> y"
  shows "0 < (y::real)"
proof -
  have "0 < (2::real) powi p"
    by simp
  with assms show ?thesis
    by linarith
qed

lemma round_even_of_int: "round_even (of_int k) = k"
  by (simp add: round_even_def)

lemma round_even_ge: "real_of_int k \<le> y \<Longrightarrow> k \<le> round_even y"
proof -
  assume "real_of_int k \<le> y"
  then have "k \<le> \<lfloor>y\<rfloor>"
    by (simp add: le_floor_iff)
  moreover have "\<lfloor>y\<rfloor> \<le> round_even y"
    by (simp add: round_even_def Let_def)
  ultimately show ?thesis
    by simp
qed

lemma round_even_le: "y \<le> real_of_int k \<Longrightarrow> round_even y \<le> k"
proof -
  assume y: "y \<le> real_of_int k"
  have f: "\<lfloor>y\<rfloor> \<le> k"
    using y by linarith
  show ?thesis
  proof (cases "\<lfloor>y\<rfloor> = k")
    case True
    then have "y = of_int k"
      using y by linarith
    then show ?thesis
      by (simp add: round_even_of_int)
  next
    case False
    with f have "\<lfloor>y\<rfloor> + 1 \<le> k" by simp
    then show ?thesis
      using f by (auto simp: round_even_def Let_def)
  qed
qed

text \<open>Half-way below an even integer, rounding goes up to it; below that, it stays below.\<close>

lemma round_even_half_up:
  assumes "real_of_int k - 1 / 2 \<le> y" and "even k"
  shows "k \<le> round_even y"
proof (cases "real_of_int k \<le> y")
  case True
  then show ?thesis by (rule round_even_ge)
next
  case False
  with assms(1) have fl: "\<lfloor>y\<rfloor> = k - 1"
    by linarith
  with assms(2) have "odd \<lfloor>y\<rfloor>"
    by simp
  moreover have "1 / 2 \<le> y - real_of_int \<lfloor>y\<rfloor>"
    using assms(1) fl by simp
  ultimately show ?thesis
    using fl by (auto simp: round_even_def Let_def)
qed

lemma round_even_half_down:
  assumes "y < real_of_int k - 1 / 2"
  shows "round_even y \<le> k - 1"
proof (cases "y \<le> real_of_int (k - 1)")
  case True
  then show ?thesis by (rule round_even_le)
next
  case False
  with assms have fl: "\<lfloor>y\<rfloor> = k - 1"
    by linarith
  moreover have "y - real_of_int \<lfloor>y\<rfloor> < 1 / 2"
    using assms fl by simp
  ultimately show ?thesis
    by (simp add: round_even_def Let_def)
qed

lemma ulp_exp_eq:
  assumes "2 powi (e + 52) \<le> \<bar>x\<bar>" and "\<bar>x\<bar> < 2 powi (e + 53)" and "- 1074 \<le> e"
  shows "ulp_exp x = e"
proof -
  have pos: "0 < \<bar>x\<bar>"
    using assms(1) by (rule two_powi_le_pos)
  have p: "(2::real) powr real_of_int n = 2 powi n" for n
    by (simp add: powr_real_of_int')
  have "2 powr real_of_int (e + 52) \<le> \<bar>x\<bar>" "\<bar>x\<bar> < 2 powr real_of_int (e + 52 + 1)"
    unfolding p using assms(1,2) by (simp_all add: add.commute)
  then have "\<lfloor>log 2 \<bar>x\<bar>\<rfloor> = e + 52"
    using pos by (subst floor_log_eq_powr_iff) simp_all
  with assms(3) show ?thesis
    by (simp add: ulp_exp_def)
qed

lemma round_double_eq:
  assumes "2 powi (e + 52) \<le> \<bar>x\<bar>" and "\<bar>x\<bar> < 2 powi (e + 53)" and "- 1074 \<le> e"
  shows "round_double x = real_of_int (round_even (x / 2 powi e)) * 2 powi e"
proof -
  have "0 < \<bar>x\<bar>"
    using assms(1) by (rule two_powi_le_pos)
  then have "x \<noteq> 0"
    by simp
  then show ?thesis
    by (simp add: round_double_def ulp_exp_eq [OF assms])
qed

lemma two_powi_less_iff: "(2::real) powi m < 2 powi n \<longleftrightarrow> m < n"
proof
  assume less: "(2::real) powi m < 2 powi n"
  show "m < n"
  proof (rule ccontr)
    assume "\<not> m < n"
    then have "(2::real) powi n \<le> 2 powi m"
      by (intro power_int_increasing) simp_all
    with less show False by simp
  qed
next
  assume "m < n"
  then show "(2::real) powi m < 2 powi n"
    by (intro power_int_strict_increasing) simp_all
qed

lemma two_powi_le_iff: "(2::real) powi m \<le> 2 powi n \<longleftrightarrow> m \<le> n"
  using two_powi_less_iff [of n m] by (simp add: not_less [symmetric])

text \<open>Every positive real lies between two consecutive powers of two.\<close>

lemma floor_log2_bounds:
  assumes "0 < x"
  shows "2 powi \<lfloor>log 2 x\<rfloor> \<le> x" and "x < 2 powi (\<lfloor>log 2 x\<rfloor> + 1)"
proof -
  have p: "(2::real) powr real_of_int n = 2 powi n" for n
    by (simp add: powr_real_of_int')
  have "2 powr real_of_int \<lfloor>log 2 x\<rfloor> \<le> x \<and> x < 2 powr real_of_int (\<lfloor>log 2 x\<rfloor> + 1)"
    using assms floor_log_eq_powr_iff [of x 2 "\<lfloor>log 2 x\<rfloor>"] by simp
  then show "2 powi \<lfloor>log 2 x\<rfloor> \<le> x" and "x < 2 powi (\<lfloor>log 2 x\<rfloor> + 1)"
    unfolding p by simp_all
qed

lemma floor_log2_ge:
  assumes "2 powi p \<le> x"
  shows "p \<le> \<lfloor>log 2 x\<rfloor>"
proof -
  have pos: "0 < x"
    using assms by (rule two_powi_le_pos)
  have "(2::real) powi p < 2 powi (\<lfloor>log 2 x\<rfloor> + 1)"
    using assms floor_log2_bounds(2) [OF pos] by simp
  then have "p < \<lfloor>log 2 x\<rfloor> + 1"
    by (simp add: two_powi_less_iff)
  then show ?thesis by simp
qed

lemma floor_log2_less:
  assumes "0 < x" and "x < 2 powi p"
  shows "\<lfloor>log 2 x\<rfloor> < p"
proof -
  have "(2::real) powi \<lfloor>log 2 x\<rfloor> < 2 powi p"
    using assms floor_log2_bounds(1) [OF assms(1)] by simp
  then show ?thesis
    by (simp add: two_powi_less_iff)
qed

lemma round_double_nonneg: "0 \<le> x \<Longrightarrow> 0 \<le> round_double x"
proof -
  assume "0 \<le> x"
  then have "real_of_int 0 \<le> x / 2 powi ulp_exp x"
    by simp
  then have "0 \<le> round_even (x / 2 powi ulp_exp x)"
    by (rule round_even_ge)
  then show ?thesis
    by (simp add: round_double_def)
qed

lemma ulp_exp_pos: "0 < x \<Longrightarrow> ulp_exp x = max \<lfloor>log 2 x\<rfloor> (- 1022) - 52"
  by (simp add: ulp_exp_def)

lemma round_double_lower:
  assumes "2 powi p \<le> x" and "- 1022 \<le> p"
  shows "2 powi p \<le> round_double x"
proof -
  have pos: "0 < x"
    using assms(1) by (rule two_powi_le_pos)
  define L where "L = \<lfloor>log 2 x\<rfloor>"
  have pL: "p \<le> L"
    unfolding L_def using assms(1) by (rule floor_log2_ge)
  have "ulp_exp x = max L (- 1022) - 52"
    unfolding L_def using pos by (rule ulp_exp_pos)
  with pL assms(2) have e: "ulp_exp x = L - 52"
    by linarith
  have "2 powi L \<le> x"
    unfolding L_def using pos by (rule floor_log2_bounds)
  then have "2 powi L / 2 powi (L - 52) \<le> x / 2 powi (L - 52)"
    by (simp add: divide_right_mono)
  moreover have "(2::real) powi L / 2 powi (L - 52) = real_of_int (2 ^ 52)"
    by (simp add: power_int_diff [symmetric])
  ultimately have "real_of_int (2 ^ 52) \<le> x / 2 powi (L - 52)"
    by simp
  then have "2 ^ 52 \<le> round_even (x / 2 powi (L - 52))"
    by (rule round_even_ge)
  then have "real_of_int (2 ^ 52) \<le> real_of_int (round_even (x / 2 powi (L - 52)))"
    by linarith
  then have "real_of_int (2 ^ 52) * 2 powi (L - 52) \<le> round_double x"
    using pos e by (simp add: round_double_def)
  moreover have "real_of_int (2 ^ 52) * 2 powi (L - 52) = 2 powi L"
    using power_int_add [of "2::real" 52 "L - 52"] by simp
  moreover have "(2::real) powi p \<le> 2 powi L"
    using pL by (simp add: two_powi_le_iff)
  ultimately show ?thesis
    by linarith
qed

lemma round_double_upper:
  assumes "0 < x" and "x < 2 powi p" and "- 1021 \<le> p"
  shows "round_double x \<le> 2 powi p"
proof -
  define L where "L = \<lfloor>log 2 x\<rfloor>"
  define e where "e = ulp_exp x"
  have "L < p"
    unfolding L_def using assms(1,2) by (rule floor_log2_less)
  moreover have "e = max L (- 1022) - 52"
    unfolding L_def e_def using assms(1) by (rule ulp_exp_pos)
  ultimately have e53: "L + 1 \<le> e + 53" "e + 53 \<le> p"
    using assms(3) by linarith+
  have "x < 2 powi (L + 1)"
    unfolding L_def using assms(1) by (rule floor_log2_bounds)
  also have "\<dots> \<le> 2 powi (e + 53)"
    using e53(1) by (simp add: two_powi_le_iff)
  finally have "x / 2 powi e < 2 powi (e + 53) / 2 powi e"
    by (simp add: divide_strict_right_mono)
  moreover have "(2::real) powi (e + 53) / 2 powi e = real_of_int (2 ^ 53)"
    by (simp add: power_int_diff [symmetric])
  ultimately have "x / 2 powi e \<le> real_of_int (2 ^ 53)"
    by simp
  then have "round_even (x / 2 powi e) \<le> 2 ^ 53"
    by (rule round_even_le)
  then have "real_of_int (round_even (x / 2 powi e)) \<le> real_of_int (2 ^ 53)"
    by linarith
  then have "round_double x \<le> real_of_int (2 ^ 53) * 2 powi e"
    using assms(1) by (simp add: round_double_def e_def)
  moreover have "real_of_int (2 ^ 53) * 2 powi e = 2 powi (e + 53)"
    using power_int_add [of "2::real" 53 e] by (simp add: add.commute)
  moreover have "(2::real) powi (e + 53) \<le> 2 powi p"
    using e53(2) by (simp add: two_powi_le_iff)
  ultimately show ?thesis
    by linarith
qed

lemma round_double_overflow_iff:
  assumes "0 \<le> x"
  shows "2 ^ 1024 \<le> round_double x \<longleftrightarrow> 2 ^ 1024 - 2 ^ 970 \<le> x"
proof -
  consider "x = 0" | "0 < x" "x < 2 powi 1023" | "2 powi 1023 \<le> x" "x < 2 powi 1024"
    | "2 powi 1024 \<le> x"
    using assms by linarith
  then show ?thesis
  proof cases
    case 1
    then show ?thesis
      by (simp add: round_double_def)
  next
    case 2
    then have "round_double x \<le> 2 powi 1023"
      by (intro round_double_upper) simp_all
    with 2 show ?thesis
      by simp
  next
    case 3
    then have rd: "round_double x = real_of_int (round_even (x / 2 powi 971)) * 2 powi 971"
      using assms by (intro round_double_eq) simp_all
    show ?thesis
    proof (cases "2 ^ 1024 - 2 ^ 970 \<le> x")
      case True
      then have "real_of_int (2 ^ 53) - 1 / 2 \<le> x / 2 powi 971"
        by (simp add: field_simps)
      then have "2 ^ 53 \<le> round_even (x / 2 powi 971)"
        by (rule round_even_half_up) simp
      then have "real_of_int (2 ^ 53) \<le> real_of_int (round_even (x / 2 powi 971))"
        by linarith
      then have "real_of_int (2 ^ 53) * 2 powi 971 \<le> round_double x"
        unfolding rd by (simp only: mult_le_cancel_right) simp
      with True show ?thesis
        by simp
    next
      case False
      then have "x / 2 powi 971 < real_of_int (2 ^ 53) - 1 / 2"
        by (simp add: field_simps)
      then have "round_even (x / 2 powi 971) \<le> 2 ^ 53 - 1"
        by (rule round_even_half_down)
      then have "real_of_int (round_even (x / 2 powi 971)) \<le> real_of_int (2 ^ 53 - 1)"
        by linarith
      then have "round_double x \<le> real_of_int (2 ^ 53 - 1) * 2 powi 971"
        unfolding rd by (simp only: mult_le_cancel_right) simp
      with False show ?thesis
        by simp
    qed
  next
    case 4
    then have "2 powi 1024 \<le> round_double x"
      by (rule round_double_lower) simp
    with 4 show ?thesis
      by simp
  qed
qed

lemma round_double_int_exact:
  assumes "0 \<le> n" and "n \<le> 2 ^ 53"
  shows "round_double (real_of_int n) = real_of_int n"
proof -
  consider "n = 0" | "n = 2 ^ 53" | "1 \<le> n" "n < 2 ^ 53"
    using assms by linarith
  then show ?thesis
  proof cases
    case 1
    then show ?thesis
      by (simp add: round_double_def)
  next
    case 2
    have "round_double (2 ^ 53) = 2 ^ 53"
      by (subst round_double_eq [where e = 1]) (simp_all add: round_even_def)
    with 2 show ?thesis
      by simp
  next
    case 3
    define x where "x = real_of_int n"
    define L where "L = \<lfloor>log 2 x\<rfloor>"
    have x: "2 powi 0 \<le> x" "0 < x" "x < 2 powi 53"
      using 3 by (simp_all add: x_def)
    have L0: "0 \<le> L"
      unfolding L_def using x(1) by (rule floor_log2_ge)
    have L53: "L < 53"
      unfolding L_def using x(2,3) by (rule floor_log2_less)
    note L = L0 L53
    have "ulp_exp x = max L (- 1022) - 52"
      unfolding L_def using x(2) by (rule ulp_exp_pos)
    with L have e: "ulp_exp x = - int (nat (52 - L))"
      by simp
    have pw: "(2::real) powi ulp_exp x = inverse (2 ^ nat (52 - L))"
      unfolding e by (simp only: power_int_minus power_int_of_nat)
    have "x / 2 powi ulp_exp x = real_of_int (n * 2 ^ nat (52 - L))"
      unfolding pw by (simp add: x_def divide_inverse)
    then have "round_even (x / 2 powi ulp_exp x) = n * 2 ^ nat (52 - L)"
      by (simp only: round_even_of_int)
    then have "round_double x = real_of_int (n * 2 ^ nat (52 - L)) * inverse (2 ^ nat (52 - L))"
      using x(2) by (simp add: round_double_def pw)
    then show ?thesis
      by (simp add: x_def)
  qed
qed

section \<open>Operations on floats\<close>

lemma int_to_float_cases:
  assumes "0 \<le> n"
  shows "int_to_float n =
     (if float_limit \<le> n then Inl OverflowError else Inr (Finite (round_double (of_int n))))"
proof -
  have "0 \<le> round_double (real_of_int n)"
    using assms by (intro round_double_nonneg) simp
  then have "\<bar>round_double (real_of_int n)\<bar> = round_double (real_of_int n)"
    by simp
  moreover have "2 ^ 1024 \<le> round_double (real_of_int n) \<longleftrightarrow> 2 ^ 1024 - 2 ^ 970 \<le> real_of_int n"
    using assms by (intro round_double_overflow_iff) simp
  moreover have "2 ^ 1024 - 2 ^ 970 \<le> real_of_int n \<longleftrightarrow> float_limit \<le> n"
  proof -
    have "(2 ^ 1024 - 2 ^ 970 :: real) = real_of_int float_limit"
      by (simp add: float_limit_def)
    then show ?thesis
      by (simp only: of_int_le_iff)
  qed
  ultimately show ?thesis
    by (simp add: int_to_float_def Let_def)
qed

lemma int_to_float_exact:
  assumes "0 \<le> n" and "n \<le> 2 ^ 53"
  shows "int_to_float n = Inr (Finite (real_of_int n))"
proof -
  have "n < float_limit"
    using assms(2) by (simp add: float_limit_def)
  then show ?thesis
    using assms by (simp add: int_to_float_cases round_double_int_exact)
qed

lemma float_of_real_int_exact:
  assumes "0 \<le> n" and "n \<le> 2 ^ 53"
  shows "float_of_real (real_of_int n) = Finite (real_of_int n)"
proof -
  have "real_of_int n \<le> 2 ^ 53"
    using assms(2) by (metis of_int_le_iff of_int_numeral of_int_power)
  then have "\<not> 2 ^ 1024 \<le> real_of_int n"
    by simp
  moreover have "\<not> real_of_int n \<le> - (2 ^ 1024)"
    using assms(1) by simp
  ultimately show ?thesis
    by (simp add: float_of_real_def Let_def round_double_int_exact [OF assms])
qed

lemma fadd_int_cases:
  assumes "0 \<le> d"
  shows "fadd_int x d =
     (if float_limit \<le> d then Inl OverflowError
      else Inr (fadd x (Finite (round_double (of_int d)))))"
  by (simp add: fadd_int_def int_to_float_cases [OF assms])

lemma fadd_int_exact:
  assumes "0 \<le> s" and "0 \<le> d" and "s + d \<le> 2 ^ 53"
  shows "fadd_int (Finite (real_of_int s)) d = Inr (Finite (real_of_int (s + d)))"
proof -
  have "d \<le> 2 ^ 53"
    using assms by linarith
  then have "int_to_float d = Inr (Finite (real_of_int d))"
    using assms(2) by (intro int_to_float_exact)
  moreover have "float_of_real (real_of_int (s + d)) = Finite (real_of_int (s + d))"
    using assms by (intro float_of_real_int_exact) simp_all
  ultimately show ?thesis
    by (simp add: fadd_int_def)
qed

lemma len_to_float_cases:
  assumes "1 \<le> n"
  shows "len_to_float n = PosInf \<or> (\<exists>y. len_to_float n = Finite y \<and> 1 \<le> y)"
proof -
  have "2 powi 0 \<le> real_of_int n"
    using assms by simp
  then have "2 powi 0 \<le> round_double (real_of_int n)"
    by (rule round_double_lower) simp
  then have "1 \<le> round_double (real_of_int n)"
    by simp
  then show ?thesis
    by (simp add: len_to_float_def float_of_real_def Let_def)
qed

lemma fdiv_len_returns:
  assumes "1 \<le> n"
  shows "\<exists>m. fdiv_len x n = Inr m"
  using len_to_float_cases [OF assms]
  by (cases x) (auto simp: fdiv_len_def)

lemma float_of_real_zero: "float_of_real 0 = Finite 0"
  by (simp add: float_of_real_def round_double_def)

lemma fdiv_len_zero:
  assumes "1 \<le> n"
  shows "fdiv_len (Finite 0) n = Inr (Finite 0)"
  using len_to_float_cases [OF assms]
  by (auto simp: fdiv_len_def float_of_real_zero)

lemma len_to_float_exact:
  assumes "0 \<le> n" and "n \<le> 2 ^ 53"
  shows "len_to_float n = Finite (real_of_int n)"
  unfolding len_to_float_def using assms by (rule float_of_real_int_exact)

lemma fdiv_len_finite:
  assumes "1 \<le> n" and "n \<le> 2 ^ 53"
  shows "fdiv_len (Finite t) n = Inr (float_of_real (t / real_of_int n))"
proof -
  have "len_to_float n = Finite (real_of_int n)"
    using assms by (intro len_to_float_exact) simp_all
  then show ?thesis
    using assms(1) by (simp add: fdiv_len_def)
qed

lemma float_of_real_eq:
  assumes "2 powi (e + 52) \<le> x" and "x < 2 powi (e + 53)" and "- 1074 \<le> e"
    and "real_of_int (round_even (x / 2 powi e)) * 2 powi e < 2 ^ 1024"
  shows "float_of_real x = Finite (real_of_int (round_even (x / 2 powi e)) * 2 powi e)"
proof -
  have pos: "0 < x"
    using assms(1) by (rule two_powi_le_pos)
  then have "round_double x = real_of_int (round_even (x / 2 powi e)) * 2 powi e"
    using assms(1-3) by (intro round_double_eq) simp_all
  moreover have "0 \<le> round_double x"
    using pos by (intro round_double_nonneg) simp
  ultimately show ?thesis
    using assms(4) by (simp add: float_of_real_def Let_def)
qed

section \<open>Dictionary operations\<close>

lemma getitem_present: "k \<in> set (keys d) \<Longrightarrow> getitem d k = Inr (the (map_of d k))"
  by (auto simp: getitem_def keys_def map_of_eq_None_iff split: option.splits)

lemma length_keys: "length (keys d) = length d"
  by (simp add: keys_def)

lemma setitem_fresh: "k \<notin> set (keys d) \<Longrightarrow> setitem d k v = d @ [(k, v)]"
  by (induction d) (auto simp: keys_def)

lemma fold_setitem_distinct:
  "distinct ks \<Longrightarrow> set ks \<inter> set (keys kd) = {} \<Longrightarrow>
   fold (\<lambda>k d. setitem d k (f k)) ks kd = kd @ map (\<lambda>k. (k, f k)) ks"
  by (induction ks arbitrary: kd) (auto simp: setitem_fresh keys_def)

lemma kpi_differences_distinct:
  "distinct ks \<Longrightarrow> fold (\<lambda>k d. setitem d k (f k)) ks [] = map (\<lambda>k. (k, f k)) ks"
  using fold_setitem_distinct [of ks "[]" f] by (simp add: keys_def)

lemma map_of_key_value:
  "map_of (map (\<lambda>k. (k, f k)) ks) k = (if k \<in> set ks then Some (f k) else None)"
  by (induction ks) auto

lemma diff_of_nonneg: "0 \<le> diff_of A B k"
  by (simp add: diff_of_def)

lemma diff_of_commute: "diff_of A B k = diff_of B A k"
  by (simp add: diff_of_def abs_minus_commute)

lemma diff_of_self: "diff_of A A k = 0"
  by (simp add: diff_of_def)

section \<open>The loop of \<open>calculate_mae\<close>\<close>

text \<open>On keys that both dictionaries hold, no subscript raises. The loop raises
  \<^verbatim>\<open>OverflowError\<close> when it meets a difference that is too large for a float; otherwise it
  ends, having stored one difference per key visited and added them, each rounded to a
  double, to the total.\<close>

lemma mae_loop_cases:
  "set ks \<subseteq> set (keys ai) \<Longrightarrow> set ks \<subseteq> set (keys human) \<Longrightarrow>
   mae_loop ks ai human (kd, td) =
     (if \<exists>k\<in>set ks. float_limit \<le> diff_of ai human k then Inl OverflowError
      else Inr (fold (\<lambda>k d. setitem d k (diff_of ai human k)) ks kd,
                foldl (\<lambda>t k. fadd t (Finite (round_double (real_of_int (diff_of ai human k)))))
                  td ks))"
proof (induction ks arbitrary: kd td)
  case Nil
  then show ?case by simp
next
  case (Cons k ks)
  from Cons.prems have k: "k \<in> set (keys ai)" "k \<in> set (keys human)"
    and ks: "set ks \<subseteq> set (keys ai)" "set ks \<subseteq> set (keys human)"
    by simp_all
  have d: "\<bar>the (map_of ai k) - the (map_of human k)\<bar> = diff_of ai human k"
    by (simp add: diff_of_def)
  show ?case
    using Cons.IH [OF ks]
    by (simp add: getitem_present k d Let_def fadd_int_cases diff_of_nonneg)
qed

text \<open>While the sum of the differences stays within \<open>2 ^ 53\<close>, nothing is rounded.\<close>

lemma total_exact:
  "0 \<le> s \<Longrightarrow> s + (\<Sum>k\<leftarrow>ks. diff_of ai human k) \<le> 2 ^ 53 \<Longrightarrow>
   foldl (\<lambda>t k. fadd t (Finite (round_double (real_of_int (diff_of ai human k)))))
     (Finite (real_of_int s)) ks =
   Finite (real_of_int (s + (\<Sum>k\<leftarrow>ks. diff_of ai human k)))"
proof (induction ks arbitrary: s)
  case Nil
  then show ?case by simp
next
  case (Cons k ks)
  have rest: "0 \<le> (\<Sum>k\<leftarrow>ks. diff_of ai human k)"
    by (rule sum_list_nonneg) (auto simp: diff_of_nonneg)
  have d0: "0 \<le> diff_of ai human k"
    by (rule diff_of_nonneg)
  with Cons.prems rest have d53: "diff_of ai human k \<le> 2 ^ 53"
    and sd: "s + diff_of ai human k \<le> 2 ^ 53"
    by simp_all
  have "fadd (Finite (real_of_int s))
          (Finite (round_double (real_of_int (diff_of ai human k)))) =
        float_of_real (real_of_int (s + diff_of ai human k))"
    by (simp add: round_double_int_exact [OF d0 d53])
  also have "\<dots> = Finite (real_of_int (s + diff_of ai human k))"
    using Cons.prems(1) d0 sd by (intro float_of_real_int_exact) simp_all
  finally have step: "fadd (Finite (real_of_int s))
          (Finite (round_double (real_of_int (diff_of ai human k)))) =
        Finite (real_of_int (s + diff_of ai human k))" .
  let ?F = "\<lambda>t k. fadd t (Finite (round_double (real_of_int (diff_of ai human k))))"
  have ih: "foldl ?F (Finite (real_of_int (s + diff_of ai human k))) ks =
        Finite (real_of_int (s + diff_of ai human k + (\<Sum>k\<leftarrow>ks. diff_of ai human k)))"
    using Cons.prems d0 by (intro Cons.IH) simp_all
  have "foldl ?F (Finite (real_of_int s)) (k # ks) =
        foldl ?F (fadd (Finite (real_of_int s))
          (Finite (round_double (real_of_int (diff_of ai human k))))) ks"
    by (simp only: foldl_Cons)
  also have "\<dots> = foldl ?F (Finite (real_of_int (s + diff_of ai human k))) ks"
    by (simp only: step)
  also have "\<dots> =
      Finite (real_of_int (s + diff_of ai human k + (\<Sum>k\<leftarrow>ks. diff_of ai human k)))"
    by (rule ih)
  also have "s + diff_of ai human k + (\<Sum>k\<leftarrow>ks. diff_of ai human k) =
      s + (\<Sum>k\<leftarrow>k # ks. diff_of ai human k)"
    by simp
  finally show ?case .
qed

section \<open>The value of \<open>calculate_mae\<close>\<close>

lemma calculate_mae_mismatch:
  "set (keys ai) \<noteq> set (keys human) \<Longrightarrow>
   calculate_mae ai human = Inl (ValueError ''AI and human scores must have the same KPIs'')"
  by (simp add: calculate_mae_def)

lemma calculate_mae_too_large:
  assumes "set (keys ai) = set (keys human)"
    and "\<exists>k\<in>set (keys ai). float_limit \<le> diff_of ai human k"
  shows "calculate_mae ai human = Inl OverflowError"
proof -
  have "mae_loop (keys ai) ai human ([], Finite 0) = Inl OverflowError"
    using assms by (subst mae_loop_cases) simp_all
  then show ?thesis
    using assms(1) by (simp add: calculate_mae_def)
qed

lemma calculate_mae_fits:
  assumes "set (keys ai) = set (keys human)"
    and "\<forall>k\<in>set (keys ai). diff_of ai human k < float_limit"
  shows "\<exists>m. (if 0 < int (length ai)
              then fdiv_len
                (foldl (\<lambda>t k. fadd t (Finite (round_double (real_of_int (diff_of ai human k)))))
                   (Finite 0) (keys ai)) (int (length ai))
              else Inr (Finite 0)) = Inr m \<and>
     calculate_mae ai human =
       Inr \<lparr>mae = m,
            total_difference =
              foldl (\<lambda>t k. fadd t (Finite (round_double (real_of_int (diff_of ai human k)))))
                (Finite 0) (keys ai),
            num_kpis = int (length ai),
            kpi_differences = fold (\<lambda>k d. setitem d k (diff_of ai human k)) (keys ai) [],
            interpretation_str = interpret_mae_float m\<rparr>"
proof -
  let ?td = "foldl (\<lambda>t k. fadd t (Finite (round_double (real_of_int (diff_of ai human k)))))
                (Finite 0) (keys ai)"
  let ?kd = "fold (\<lambda>k d. setitem d k (diff_of ai human k)) (keys ai) []"
  have no: "\<not> (\<exists>k\<in>set (keys ai). float_limit \<le> diff_of ai human k)"
    using assms(2) by auto
  have loop: "mae_loop (keys ai) ai human ([], Finite 0) = Inr (?kd, ?td)"
    using assms(1) no by (subst mae_loop_cases) simp_all
  obtain m where m: "(if 0 < int (length ai) then fdiv_len ?td (int (length ai))
      else Inr (Finite 0)) = Inr m"
  proof (cases "0 < int (length ai)")
    case True
    then have "1 \<le> int (length ai)" by linarith
    from fdiv_len_returns [OF this, of ?td] True that show ?thesis
      by auto
  next
    case False
    with that show ?thesis by simp
  qed
  have "calculate_mae ai human =
       Inr \<lparr>mae = m, total_difference = ?td, num_kpis = int (length ai),
            kpi_differences = ?kd, interpretation_str = interpret_mae_float m\<rparr>"
    using assms(1) loop m by (simp add: calculate_mae_def Let_def)
  with m show ?thesis
    by blast
qed

lemma calculate_mae_returns_iff:
  assumes "set (keys ai) = set (keys human)"
  shows "(\<exists>r. calculate_mae ai human = Inr r) \<longleftrightarrow>
         (\<forall>k\<in>set (keys ai). diff_of ai human k < float_limit)"
proof
  assume "\<exists>r. calculate_mae ai human = Inr r"
  then show "\<forall>k\<in>set (keys ai). diff_of ai human k < float_limit"
    using calculate_mae_too_large [OF assms] by (metis Inl_Inr_False not_le)
next
  assume "\<forall>k\<in>set (keys ai). diff_of ai human k < float_limit"
  from calculate_mae_fits [OF assms this] show "\<exists>r. calculate_mae ai human = Inr r"
    by blast
qed

lemma diff_fits_of_sum:
  assumes "distinct (keys A)"
    and "(\<Sum>k\<in>set (keys A). diff_of A B k) \<le> 2 ^ 53"
  shows "\<forall>k\<in>set (keys A). diff_of A B k < float_limit"
proof
  fix k assume "k \<in> set (keys A)"
  then have "diff_of A B k \<le> (\<Sum>k\<in>set (keys A). diff_of A B k)"
    by (intro member_le_sum) (simp_all add: diff_of_nonneg)
  with assms(2) have "diff_of A B k \<le> 2 ^ 53"
    by linarith
  then show "diff_of A B k < float_limit"
    by (simp add: float_limit_def)
qed

lemma calculate_mae_exact:
  assumes "distinct (keys A)" and "set (keys A) = set (keys B)"
    and "(\<Sum>k\<in>set (keys A). diff_of A B k) \<le> 2 ^ 53"
  shows "\<exists>m. (if 0 < int (length A)
              then fdiv_len (Finite (real_of_int (\<Sum>k\<in>set (keys A). diff_of A B k)))
                     (int (length A))
              else Inr (Finite 0)) = Inr m \<and>
     calculate_mae A B =
       Inr \<lparr>mae = m,
            total_difference = Finite (real_of_int (\<Sum>k\<in>set (keys A). diff_of A B k)),
            num_kpis = int (length A),
            kpi_differences = map (\<lambda>k. (k, diff_of A B k)) (keys A),
            interpretation_str = interpret_mae_float m\<rparr>"
proof -
  have sl: "(\<Sum>k\<leftarrow>keys A. diff_of A B k) = (\<Sum>k\<in>set (keys A). diff_of A B k)"
    using assms(1) by (simp add: sum_list_distinct_conv_sum_set)
  have "foldl (\<lambda>t k. fadd t (Finite (round_double (real_of_int (diff_of A B k)))))
          (Finite (real_of_int 0)) (keys A) =
        Finite (real_of_int (0 + (\<Sum>k\<leftarrow>keys A. diff_of A B k)))"
    using assms(3) by (intro total_exact) (simp_all add: sl)
  then have td: "foldl (\<lambda>t k. fadd t (Finite (round_double (real_of_int (diff_of A B k)))))
          (Finite 0) (keys A) =
        Finite (real_of_int (\<Sum>k\<in>set (keys A). diff_of A B k))"
    by (simp add: sl)
  have kd: "fold (\<lambda>k d. setitem d k (diff_of A B k)) (keys A) [] =
      map (\<lambda>k. (k, diff_of A B k)) (keys A)"
    using assms(1) by (rule kpi_differences_distinct)
  from calculate_mae_fits [OF assms(2) diff_fits_of_sum [OF assms(1,3)]]
  show ?thesis
    unfolding td kd .
qed

lemma fits_iff:
  "(\<forall>k\<in>set (keys A). \<bar>the (map_of A k) - the (map_of B k)\<bar> < 2 ^ 1024 - 2 ^ 970) \<longleftrightarrow>
   (\<forall>k\<in>set (keys A). diff_of A B k < float_limit)"
  by (simp add: diff_of_def float_limit_def)

lemma too_large_iff:
  "(\<exists>k\<in>set (keys A). 2 ^ 1024 - 2 ^ 970 \<le> \<bar>the (map_of A k) - the (map_of B k)\<bar>) \<longleftrightarrow>
   (\<exists>k\<in>set (keys A). float_limit \<le> diff_of A B k)"
  by (simp add: diff_of_def float_limit_def)

lemma scores_fit_iff:
  "scores_fit A B \<longleftrightarrow> (\<forall>k\<in>set (keys A). diff_of A B k < float_limit)"
  by (simp add: scores_fit_def diff_of_def float_limit_def)

lemma calculate_mae_returns:
  assumes "set (keys A) = set (keys B)" and "scores_fit A B"
  shows "\<exists>r. calculate_mae A B = Inr r"
  using calculate_mae_fits [OF assms(1)] assms(2) unfolding scores_fit_iff by blast

lemma calculate_mae_returns_only_if:
  assumes "calculate_mae A B = Inr r"
  shows "set (keys A) = set (keys B) \<and> scores_fit A B"
proof -
  have ks: "set (keys A) = set (keys B)"
    using assms calculate_mae_mismatch [of A B] by auto
  moreover have "scores_fit A B"
    unfolding scores_fit_iff using calculate_mae_too_large [OF ks] assms
    by (metis Inl_Inr_False not_le)
  ultimately show ?thesis ..
qed

lemma calculate_mae_errors:
  assumes "calculate_mae A B = Inl e"
  shows "e = ValueError ''AI and human scores must have the same KPIs'' \<or> e = OverflowError"
proof (cases "set (keys A) = set (keys B)")
  case False
  with assms show ?thesis
    by (simp add: calculate_mae_mismatch)
next
  case True
  show ?thesis
  proof (cases "scores_fit A B")
    case True
    from calculate_mae_returns [OF \<open>set (keys A) = set (keys B)\<close> this] assms show ?thesis
      by auto
  next
    case False
    then have "\<exists>k\<in>set (keys A). float_limit \<le> diff_of A B k"
      unfolding scores_fit_iff by (meson not_le)
    from calculate_mae_too_large [OF True this] assms show ?thesis
      by simp
  qed
qed

section \<open>Properties of \<open>calculate_mae\<close>\<close>

text \<open>
  Claim C1, as stated, gives \<open>total_difference\<close> as the sum of the absolute
  differences for all scores. The total is a double: for the single difference
  \<open>2 ^ 53 + 1 = 9007199254740993\<close> it is \<open>9007199254740992\<close>.
\<close>

theorem calculate_mae_total_rounded:
  "calculate_mae [(''a'', 9007199254740993)] [(''a'', 0)] =
     Inr \<lparr>mae = Finite 9007199254740992, total_difference = Finite 9007199254740992,
          num_kpis = 1, kpi_differences = [(''a'', 9007199254740993)],
          interpretation_str = ''Poor (needs major fixes)''\<rparr>"
proof -
  have r: "round_double 9007199254740993 = 9007199254740992"
    by (subst round_double_eq [where e = 1]) (simp_all add: round_even_def)
  have f: "float_of_real 9007199254740992 = Finite 9007199254740992"
    using float_of_real_int_exact [of 9007199254740992] by simp
  have l: "len_to_float 1 = Finite 1"
    using len_to_float_exact [of 1] by simp
  have i: "interpret_mae_float (Finite 9007199254740992) = ''Poor (needs major fixes)''"
    by (simp add: interpret_mae_float_def interpret_mae_def)
  show ?thesis
    by (simp add: calculate_mae_def keys_def getitem_def fadd_int_cases float_limit_def
      fdiv_len_def r f l i)
qed

text \<open>
  Claim C1, amended. For dictionaries \<open>A\<close> and \<open>B\<close> with the same set of keys whose
  absolute differences \<open>\<bar>A[k] - B[k]\<bar>\<close> sum to at most \<open>2 ^ 53\<close>, \<open>calculate_mae A B\<close>
  returns a result whose \<open>total_difference\<close> is that sum, whose \<open>kpi_differences\<close> hold
  exactly \<open>\<bar>A[k] - B[k]\<bar>\<close> under each key \<open>k\<close> (and hold the keys of \<open>A\<close>, in the order of
  \<open>A\<close>), and whose \<open>num_kpis\<close> is the number of keys.
\<close>

theorem calculate_mae_differences:
  assumes "wf_dict A" and "set (keys A) = set (keys B)"
    and "(\<Sum>k\<in>set (keys A). \<bar>the (map_of A k) - the (map_of B k)\<bar>) \<le> 2 ^ 53"
  shows "\<exists>r. calculate_mae A B = Inr r \<and>
     total_difference r =
       Finite (real_of_int (\<Sum>k\<in>set (keys A). \<bar>the (map_of A k) - the (map_of B k)\<bar>)) \<and>
     (\<forall>k\<in>set (keys A).
        map_of (kpi_differences r) k = Some \<bar>the (map_of A k) - the (map_of B k)\<bar>) \<and>
     keys (kpi_differences r) = keys A \<and>
     num_kpis r = int (card (set (keys A)))"
proof -
  from assms(1) have d: "distinct (keys A)"
    by (simp add: wf_dict_def)
  have n: "int (length A) = int (card (set (keys A)))"
    using d by (simp add: distinct_card length_keys)
  from assms(3) have "(\<Sum>k\<in>set (keys A). diff_of A B k) \<le> 2 ^ 53"
    by (simp add: diff_of_def)
  from calculate_mae_exact [OF d assms(2) this] obtain m where
    "calculate_mae A B =
       Inr \<lparr>mae = m,
            total_difference = Finite (real_of_int (\<Sum>k\<in>set (keys A). diff_of A B k)),
            num_kpis = int (length A),
            kpi_differences = map (\<lambda>k. (k, diff_of A B k)) (keys A),
            interpretation_str = interpret_mae_float m\<rparr>"
    by blast
  then show ?thesis
    unfolding n by (simp add: map_of_key_value diff_of_def) (simp add: keys_def comp_def)
qed

theorem calculate_mae_differences_witness:
  "wf_dict [(''IssueIdentification'', 4), (''Clarity'', 2), (''Sentiment'', 3 :: int)] \<and>
   set (keys [(''IssueIdentification'', 4), (''Clarity'', 2), (''Sentiment'', 3 :: int)]) =
   set (keys [(''Sentiment'', 4), (''IssueIdentification'', 4), (''Clarity'', 2 :: int)]) \<and>
   (\<exists>r. calculate_mae [(''IssueIdentification'', 4), (''Clarity'', 2), (''Sentiment'', 3)]
                       [(''Sentiment'', 4), (''IssueIdentification'', 4), (''Clarity'', 2)] = Inr r \<and>
        total_difference r = Finite 1 \<and>
        map_of (kpi_differences r) ''Sentiment'' = Some 1 \<and>
        map_of (kpi_differences r) ''Clarity'' = Some 0 \<and>
        keys (kpi_differences r) = [''IssueIdentification'', ''Clarity'', ''Sentiment''] \<and>
        num_kpis r = 3)"
proof -
  let ?A = "[(''IssueIdentification'', 4), (''Clarity'', 2), (''Sentiment'', 3 :: int)]"
  let ?B = "[(''Sentiment'', 4), (''IssueIdentification'', 4), (''Clarity'', 2 :: int)]"
  have wf: "wf_dict ?A"
    by (simp add: wf_dict_def keys_def)
  have ks: "set (keys ?A) = set (keys ?B)"
    by (auto simp: keys_def)
  have small: "(\<Sum>k\<in>set (keys ?A). \<bar>the (map_of ?A k) - the (map_of ?B k)\<bar>) \<le> 2 ^ 53"
    by (simp add: keys_def)
  from calculate_mae_differences [OF wf ks small] obtain r where
    "calculate_mae ?A ?B = Inr r"
    "total_difference r =
       Finite (real_of_int (\<Sum>k\<in>set (keys ?A). \<bar>the (map_of ?A k) - the (map_of ?B k)\<bar>))"
    "\<forall>k\<in>set (keys ?A).
        map_of (kpi_differences r) k = Some \<bar>the (map_of ?A k) - the (map_of ?B k)\<bar>"
    "keys (kpi_differences r) = keys ?A"
    "num_kpis r = int (card (set (keys ?A)))"
    by blast
  then have "calculate_mae ?A ?B = Inr r \<and> total_difference r = Finite 1 \<and>
        map_of (kpi_differences r) ''Sentiment'' = Some 1 \<and>
        map_of (kpi_differences r) ''Clarity'' = Some 0 \<and>
        keys (kpi_differences r) = [''IssueIdentification'', ''Clarity'', ''Sentiment''] \<and>
        num_kpis r = 3"
    by (simp add: keys_def)
  with wf ks show ?thesis
    by blast
qed

text \<open>
  Claim C2, as stated, has \<open>calculate_mae\<close> return for every two dictionaries with the
  same set of keys. It raises \<^verbatim>\<open>OverflowError\<close> when a difference is too large for a
  float.
\<close>

theorem calculate_mae_overflow:
  "calculate_mae [(''A'', 10 ^ 400)] [(''A'', 0)] = Inl OverflowError"
proof -
  have "float_limit \<le> diff_of [(''A'', 10 ^ 400)] [(''A'', 0)] ''A''"
    by (simp add: diff_of_def float_limit_def)
  then show ?thesis
    by (intro calculate_mae_too_large) (simp_all add: keys_def)
qed

text \<open>
  Claim C2, amended. For dictionaries with the same set of keys whose absolute differences
  are all below \<open>2 ^ 1024 - 2 ^ 970\<close>, \<open>calculate_mae\<close> returns a result whose \<open>mae\<close> is
  \<open>total_difference\<close> divided by \<open>num_kpis\<close>, in the division of floats, when
  \<open>num_kpis > 0\<close> (the double nearest the quotient when the total is finite and \<open>num_kpis\<close>
  at most \<open>2 ^ 53\<close>), and \<open>0\<close> when \<open>num_kpis\<close> is \<open>0\<close>, where \<open>num_kpis\<close> is the length of
  the first dictionary; and on two empty dictionaries it returns, with \<open>mae = 0\<close> and
  \<open>num_kpis = 0\<close>.
\<close>

theorem calculate_mae_mean:
  "(set (keys A) = set (keys B) \<and>
    (\<forall>k\<in>set (keys A). \<bar>the (map_of A k) - the (map_of B k)\<bar> < 2 ^ 1024 - 2 ^ 970) \<longrightarrow>
      (\<exists>r. calculate_mae A B = Inr r \<and> num_kpis r = int (length A) \<and>
           (0 < num_kpis r \<longrightarrow> fdiv_len (total_difference r) (num_kpis r) = Inr (mae r)) \<and>
           (0 < num_kpis r \<and> num_kpis r \<le> 2 ^ 53 \<longrightarrow>
              (\<forall>t. total_difference r = Finite t \<longrightarrow>
                   mae r = float_of_real (t / real_of_int (num_kpis r)))) \<and>
           (num_kpis r = 0 \<longrightarrow> mae r = Finite 0))) \<and>
   (\<exists>r. calculate_mae [] [] = Inr r \<and> mae r = Finite 0 \<and> num_kpis r = 0)"
proof (intro conjI impI)
  assume "set (keys A) = set (keys B) \<and>
    (\<forall>k\<in>set (keys A). \<bar>the (map_of A k) - the (map_of B k)\<bar> < 2 ^ 1024 - 2 ^ 970)"
  then have ks: "set (keys A) = set (keys B)"
    and fits: "\<forall>k\<in>set (keys A). diff_of A B k < float_limit"
    using fits_iff [of A B] by blast+
  let ?td = "foldl (\<lambda>t k. fadd t (Finite (round_double (real_of_int (diff_of A B k)))))
                (Finite 0) (keys A)"
  from calculate_mae_fits [OF ks fits] obtain m where
    m: "(if 0 < int (length A) then fdiv_len ?td (int (length A)) else Inr (Finite 0)) = Inr m"
    and r: "calculate_mae A B =
       Inr \<lparr>mae = m, total_difference = ?td, num_kpis = int (length A),
            kpi_differences = fold (\<lambda>k d. setitem d k (diff_of A B k)) (keys A) [],
            interpretation_str = interpret_mae_float m\<rparr>"
    by blast
  have q: "m = float_of_real (t / real_of_int (int (length A)))"
    if "0 < int (length A)" "int (length A) \<le> 2 ^ 53" "?td = Finite t" for t
  proof -
    from that(1) have "1 \<le> int (length A)" by linarith
    from fdiv_len_finite [OF this that(2), of t] m that(1,3) show ?thesis
      by simp
  qed
  show "\<exists>r. calculate_mae A B = Inr r \<and> num_kpis r = int (length A) \<and>
           (0 < num_kpis r \<longrightarrow> fdiv_len (total_difference r) (num_kpis r) = Inr (mae r)) \<and>
           (0 < num_kpis r \<and> num_kpis r \<le> 2 ^ 53 \<longrightarrow>
              (\<forall>t. total_difference r = Finite t \<longrightarrow>
                   mae r = float_of_real (t / real_of_int (num_kpis r)))) \<and>
           (num_kpis r = 0 \<longrightarrow> mae r = Finite 0)"
    unfolding r using m q by (auto split: if_splits)
next
  have "\<forall>k\<in>set (keys ([] :: int dict)). diff_of [] [] k < float_limit"
    by (simp add: keys_def)
  from calculate_mae_fits [OF refl this]
  show "\<exists>r. calculate_mae [] [] = Inr r \<and> mae r = Finite 0 \<and> num_kpis r = 0"
    by auto
qed

theorem calculate_mae_mean_witness:
  "set (keys [(''Clarity'', 2), (''Sentiment'', 3 :: int)]) =
   set (keys [(''Clarity'', 2), (''Sentiment'', 4 :: int)]) \<and>
   (\<exists>r. calculate_mae [(''Clarity'', 2), (''Sentiment'', 3)]
                       [(''Clarity'', 2), (''Sentiment'', 4)] = Inr r \<and>
        num_kpis r = 2 \<and> total_difference r = Finite 1 \<and> mae r = Finite (1 / 2))"
proof -
  let ?A = "[(''Clarity'', 2), (''Sentiment'', 3 :: int)]"
  let ?B = "[(''Clarity'', 2), (''Sentiment'', 4 :: int)]"
  have ks: "set (keys ?A) = set (keys ?B)"
    by (simp add: keys_def)
  have fits: "\<forall>k\<in>set (keys ?A). \<bar>the (map_of ?A k) - the (map_of ?B k)\<bar> < 2 ^ 1024 - 2 ^ 970"
    by (simp add: keys_def)
  from calculate_mae_mean [of ?A ?B] ks fits obtain r where
    r: "calculate_mae ?A ?B = Inr r" "num_kpis r = int (length ?A)"
       "0 < num_kpis r \<and> num_kpis r \<le> 2 ^ 53 \<longrightarrow>
          (\<forall>t. total_difference r = Finite t \<longrightarrow>
               mae r = float_of_real (t / real_of_int (num_kpis r)))"
    by blast
  have d: "distinct (keys ?A)"
    by (simp add: keys_def)
  have s: "(\<Sum>k\<in>set (keys ?A). diff_of ?A ?B k) = 1"
    by (simp add: keys_def diff_of_def)
  then have "(\<Sum>k\<in>set (keys ?A). diff_of ?A ?B k) \<le> 2 ^ 53"
    by simp
  from calculate_mae_exact [OF d ks this] r(1) have td: "total_difference r = Finite 1"
    unfolding s by auto
  have half: "float_of_real (1 / 2) = Finite (1 / 2)"
    by (subst float_of_real_eq [where e = "- 53"]) (simp_all add: round_even_def power_int_minus)
  from r(2,3) td have "mae r = float_of_real (1 / 2)"
    by simp
  with half r(1,2) td have "calculate_mae ?A ?B = Inr r \<and> num_kpis r = 2 \<and>
      total_difference r = Finite 1 \<and> mae r = Finite (1 / 2)"
    by simp
  with ks show ?thesis
    by blast
qed

text \<open>
  Claim C3, as stated, has \<open>calculate_mae\<close> never fail on equal key sets and raise no
  other kind of error. On equal key sets with a difference of \<open>2 ^ 1024\<close> it raises
  \<^verbatim>\<open>OverflowError\<close>.
\<close>

theorem calculate_mae_overflow_error:
  "calculate_mae [(''A'', 1), (''B'', 2 ^ 1024)] [(''B'', 0), (''A'', 1)] = Inl OverflowError"
proof -
  have "float_limit \<le> diff_of [(''A'', 1), (''B'', 2 ^ 1024)] [(''B'', 0), (''A'', 1)] ''B''"
    by (simp add: diff_of_def float_limit_def)
  then show ?thesis
    by (intro calculate_mae_too_large) (auto simp: keys_def)
qed

text \<open>
  Claim C3, amended. \<open>calculate_mae A B\<close> raises \<^verbatim>\<open>ValueError\<close>, with the message that
  both must have the same KPIs, if and only if the key sets of \<open>A\<close> and \<open>B\<close> differ. On equal
  key sets it raises \<^verbatim>\<open>OverflowError\<close> if and only if some absolute difference
  \<open>\<bar>A[k] - B[k]\<bar>\<close> is \<open>2 ^ 1024 - 2 ^ 970\<close> or more, and returns a result otherwise. It
  raises nothing else (no \<^verbatim>\<open>KeyError\<close> from a subscript, no \<^verbatim>\<open>ZeroDivisionError\<close>).
\<close>

theorem calculate_mae_error_iff:
  "((calculate_mae A B = Inl (ValueError ''AI and human scores must have the same KPIs''))
       = (set (keys A) \<noteq> set (keys B))) \<and>
   ((calculate_mae A B = Inl OverflowError)
       = (set (keys A) = set (keys B) \<and>
          (\<exists>k\<in>set (keys A). 2 ^ 1024 - 2 ^ 970 \<le> \<bar>the (map_of A k) - the (map_of B k)\<bar>))) \<and>
   ((\<exists>r. calculate_mae A B = Inr r)
       = (set (keys A) = set (keys B) \<and>
          (\<forall>k\<in>set (keys A). \<bar>the (map_of A k) - the (map_of B k)\<bar> < 2 ^ 1024 - 2 ^ 970))) \<and>
   (\<forall>e. calculate_mae A B = Inl e \<longrightarrow>
        e = ValueError ''AI and human scores must have the same KPIs'' \<or> e = OverflowError)"
proof (cases "set (keys A) = set (keys B)")
  case False
  then show ?thesis
    by (simp add: calculate_mae_mismatch)
next
  case ks: True
  show ?thesis
  proof (cases "\<exists>k\<in>set (keys A). float_limit \<le> diff_of A B k")
    case True
    then have big: "\<exists>k\<in>set (keys A). 2 ^ 1024 - 2 ^ 970 \<le> \<bar>the (map_of A k) - the (map_of B k)\<bar>"
      using too_large_iff [of A B] by blast
    then have "\<not> (\<forall>k\<in>set (keys A). \<bar>the (map_of A k) - the (map_of B k)\<bar> < 2 ^ 1024 - 2 ^ 970)"
      by (meson not_le)
    then show ?thesis
      using ks big by (simp add: calculate_mae_too_large [OF ks True])
  next
    case False
    then have fits: "\<forall>k\<in>set (keys A). diff_of A B k < float_limit"
      by (meson not_le)
    then have small: "\<forall>k\<in>set (keys A). \<bar>the (map_of A k) - the (map_of B k)\<bar> < 2 ^ 1024 - 2 ^ 970"
      using fits_iff [of A B] by blast
    then have "\<not> (\<exists>k\<in>set (keys A). 2 ^ 1024 - 2 ^ 970 \<le> \<bar>the (map_of A k) - the (map_of B k)\<bar>)"
      by (meson not_le)
    moreover from calculate_mae_fits [OF ks fits] obtain r where "calculate_mae A B = Inr r"
      by blast
    ultimately show ?thesis
      using ks small by simp
  qed
qed

theorem calculate_mae_error_iff_witness:
  "set (keys [(''A'', 1 :: int)]) \<noteq> set (keys [(''B'', 1 :: int)]) \<and>
   calculate_mae [(''A'', 1)] [(''B'', 1)] =
     Inl (ValueError ''AI and human scores must have the same KPIs'') \<and>
   \<not> (\<exists>r. calculate_mae [(''A'', 1)] [(''B'', 1)] = Inr r)"
proof -
  have ne: "set (keys [(''A'', 1 :: int)]) \<noteq> set (keys [(''B'', 1 :: int)])"
    by (simp add: keys_def)
  note iff = calculate_mae_error_iff [of "[(''A'', 1)]" "[(''B'', 1)]"]
  from iff ne have "calculate_mae [(''A'', 1)] [(''B'', 1)] =
     Inl (ValueError ''AI and human scores must have the same KPIs'')"
    by (rule iffD2 [OF conjunct1])
  moreover from iff ne have "\<not> (\<exists>r. calculate_mae [(''A'', 1)] [(''B'', 1)] = Inr r)"
    by blast
  ultimately show ?thesis
    using ne by blast
qed

text \<open>
  Claim C7, as stated, has the same \<open>mae\<close> in both directions for all scores. The total
  is added in the order of the keys of the first dictionary, and each addition rounds:
  with the differences \<open>2 ^ 53\<close>, \<open>1\<close>, \<open>1\<close> in this order the total is \<open>2 ^ 53\<close>, in the
  opposite order it is \<open>2 ^ 53 + 2\<close>, and the two \<open>mae\<close> differ.
\<close>

theorem calculate_mae_asymmetric:
  "calculate_mae [(''a'', 9007199254740992), (''b'', 1), (''c'', 1)]
                 [(''c'', 0), (''b'', 0), (''a'', 0)] =
     Inr \<lparr>mae = Finite (6004799503160661 / 2), total_difference = Finite 9007199254740992,
          num_kpis = 3,
          kpi_differences = [(''a'', 9007199254740992), (''b'', 1), (''c'', 1)],
          interpretation_str = ''Poor (needs major fixes)''\<rparr> \<and>
   calculate_mae [(''c'', 0), (''b'', 0), (''a'', 0)]
                 [(''a'', 9007199254740992), (''b'', 1), (''c'', 1)] =
     Inr \<lparr>mae = Finite (6004799503160663 / 2), total_difference = Finite 9007199254740994,
          num_kpis = 3,
          kpi_differences = [(''c'', 1), (''b'', 1), (''a'', 9007199254740992)],
          interpretation_str = ''Poor (needs major fixes)''\<rparr>"
proof -
  have r1: "round_double 1 = 1"
    using round_double_int_exact [of 1] by simp
  have r2: "round_double 9007199254740992 = 9007199254740992"
    using round_double_int_exact [of 9007199254740992] by simp
  have f1: "float_of_real 1 = Finite 1"
    using float_of_real_int_exact [of 1] by simp
  have f2: "float_of_real 2 = Finite 2"
    using float_of_real_int_exact [of 2] by simp
  have f3: "float_of_real 9007199254740992 = Finite 9007199254740992"
    using float_of_real_int_exact [of 9007199254740992] by simp
  have f4: "float_of_real 9007199254740993 = Finite 9007199254740992"
    by (subst float_of_real_eq [where e = 1]) (simp_all add: round_even_def)
  have f5: "float_of_real 9007199254740994 = Finite 9007199254740994"
    by (subst float_of_real_eq [where e = 1]) (simp_all add: round_even_def)
  have q1: "float_of_real (9007199254740992 / 3) = Finite (6004799503160661 / 2)"
    by (subst float_of_real_eq [where e = "- 1"]) (simp_all add: round_even_def power_int_minus)
  have q2: "float_of_real (9007199254740994 / 3) = Finite (6004799503160663 / 2)"
    by (subst float_of_real_eq [where e = "- 1"]) (simp_all add: round_even_def power_int_minus)
  have l: "len_to_float 3 = Finite 3"
    using len_to_float_exact [of 3] by simp
  have i: "interpret_mae_float (Finite (6004799503160661 / 2)) = ''Poor (needs major fixes)''"
    "interpret_mae_float (Finite (6004799503160663 / 2)) = ''Poor (needs major fixes)''"
    by (simp_all add: interpret_mae_float_def interpret_mae_def)
  have ab: "calculate_mae [(''a'', 9007199254740992), (''b'', 1), (''c'', 1)]
                 [(''c'', 0), (''b'', 0), (''a'', 0)] =
     Inr \<lparr>mae = Finite (6004799503160661 / 2), total_difference = Finite 9007199254740992,
          num_kpis = 3,
          kpi_differences = [(''a'', 9007199254740992), (''b'', 1), (''c'', 1)],
          interpretation_str = ''Poor (needs major fixes)''\<rparr>"
    by (simp add: calculate_mae_def keys_def getitem_def fadd_int_cases float_limit_def
      fdiv_len_def insert_commute r1 r2 f1 f2 f3 f4 f5 q1 l i)
  have ba: "calculate_mae [(''c'', 0), (''b'', 0), (''a'', 0)]
                 [(''a'', 9007199254740992), (''b'', 1), (''c'', 1)] =
     Inr \<lparr>mae = Finite (6004799503160663 / 2), total_difference = Finite 9007199254740994,
          num_kpis = 3,
          kpi_differences = [(''c'', 1), (''b'', 1), (''a'', 9007199254740992)],
          interpretation_str = ''Poor (needs major fixes)''\<rparr>"
    by (simp add: calculate_mae_def keys_def getitem_def fadd_int_cases float_limit_def
      fdiv_len_def insert_commute r1 r2 f1 f2 f3 f4 f5 q2 l i)
  from ab ba show ?thesis
    by (rule conjI)
qed

text \<open>
  Claim C7, amended. For dictionaries \<open>A\<close> and \<open>B\<close> with the same set of keys whose
  absolute differences sum to at most \<open>2 ^ 53\<close>, \<open>calculate_mae A B\<close> and
  \<open>calculate_mae B A\<close> both return, with the same \<open>mae\<close>.
\<close>

theorem calculate_mae_symmetric:
  assumes "wf_dict A" and "wf_dict B" and "set (keys A) = set (keys B)"
    and "(\<Sum>k\<in>set (keys A). \<bar>the (map_of A k) - the (map_of B k)\<bar>) \<le> 2 ^ 53"
  shows "\<exists>ra rb. calculate_mae A B = Inr ra \<and> calculate_mae B A = Inr rb \<and> mae ra = mae rb"
proof -
  from assms have dA: "distinct (keys A)" and dB: "distinct (keys B)"
    by (simp_all add: wf_dict_def)
  have "length A = card (set (keys A))"
    using dA by (simp add: distinct_card length_keys)
  also have "\<dots> = card (set (keys B))"
    by (simp add: assms(3))
  also have "\<dots> = length B"
    using dB by (simp add: distinct_card length_keys)
  finally have len: "length A = length B" .
  have sAB: "(\<Sum>k\<in>set (keys A). diff_of A B k) \<le> 2 ^ 53"
    using assms(4) by (simp add: diff_of_def)
  have eq: "(\<Sum>k\<in>set (keys B). diff_of B A k) = (\<Sum>k\<in>set (keys A). diff_of A B k)"
    by (simp add: assms(3) diff_of_commute [of A B])
  with sAB have sBA: "(\<Sum>k\<in>set (keys B). diff_of B A k) \<le> 2 ^ 53"
    by simp
  from calculate_mae_exact [OF dA assms(3) sAB] obtain ma where
    ma: "(if 0 < int (length A)
          then fdiv_len (Finite (real_of_int (\<Sum>k\<in>set (keys A). diff_of A B k))) (int (length A))
          else Inr (Finite 0)) = Inr ma"
    and ra: "\<exists>ra. calculate_mae A B = Inr ra \<and> mae ra = ma"
    by auto
  from calculate_mae_exact [OF dB assms(3) [symmetric] sBA] obtain mb where
    mb: "(if 0 < int (length B)
          then fdiv_len (Finite (real_of_int (\<Sum>k\<in>set (keys B). diff_of B A k))) (int (length B))
          else Inr (Finite 0)) = Inr mb"
    and rb: "\<exists>rb. calculate_mae B A = Inr rb \<and> mae rb = mb"
    by auto
  from ma mb have "ma = mb"
    unfolding eq len by simp
  with ra rb show ?thesis
    by auto
qed

theorem calculate_mae_symmetric_witness:
  "wf_dict [(''Clarity'', 2), (''Sentiment'', 3 :: int)] \<and>
   wf_dict [(''Sentiment'', 5), (''Clarity'', 2 :: int)] \<and>
   set (keys [(''Clarity'', 2), (''Sentiment'', 3 :: int)]) =
   set (keys [(''Sentiment'', 5), (''Clarity'', 2 :: int)]) \<and>
   (\<exists>ra rb. calculate_mae [(''Clarity'', 2), (''Sentiment'', 3)]
                           [(''Sentiment'', 5), (''Clarity'', 2)] = Inr ra \<and>
            calculate_mae [(''Sentiment'', 5), (''Clarity'', 2)]
                          [(''Clarity'', 2), (''Sentiment'', 3)] = Inr rb \<and>
            mae ra = mae rb \<and> mae ra = Finite 1)"
proof -
  let ?A = "[(''Clarity'', 2), (''Sentiment'', 3 :: int)]"
  let ?B = "[(''Sentiment'', 5), (''Clarity'', 2 :: int)]"
  have wfA: "wf_dict ?A" and wfB: "wf_dict ?B"
    by (simp_all add: wf_dict_def keys_def)
  have ks: "set (keys ?A) = set (keys ?B)"
    by (auto simp: keys_def)
  have small: "(\<Sum>k\<in>set (keys ?A). \<bar>the (map_of ?A k) - the (map_of ?B k)\<bar>) \<le> 2 ^ 53"
    by (simp add: keys_def)
  from calculate_mae_symmetric [OF wfA wfB ks small] obtain ra rb where
    r: "calculate_mae ?A ?B = Inr ra" "calculate_mae ?B ?A = Inr rb" "mae ra = mae rb"
    by blast
  have d: "distinct (keys ?A)"
    by (simp add: keys_def)
  have s: "(\<Sum>k\<in>set (keys ?A). diff_of ?A ?B k) = 2"
    by (simp add: keys_def diff_of_def)
  then have "(\<Sum>k\<in>set (keys ?A). diff_of ?A ?B k) \<le> 2 ^ 53"
    by simp
  from calculate_mae_exact [OF d ks this] r(1) have "fdiv_len (Finite 2) 2 = Inr (mae ra)"
    unfolding s by auto
  moreover have "fdiv_len (Finite 2) 2 = Inr (Finite 1)"
    using fdiv_len_finite [of 2 2] float_of_real_int_exact [of 1] by simp
  ultimately have "mae ra = Finite 1"
    by simp
  with wfA wfB ks r show ?thesis
    by blast
qed

text \<open>
  Claim C8. For every dictionary \<open>A\<close>, \<open>calculate_mae A A\<close> returns a result whose \<open>mae\<close>
  is \<open>0\<close> and whose interpretation is the Excellent label.
\<close>

theorem calculate_mae_self:
  "\<exists>r. calculate_mae A A = Inr r \<and> mae r = Finite 0 \<and>
       interpretation_str r = ''Excellent (matches human analyst very closely)''"
proof -
  have fits: "\<forall>k\<in>set (keys A). diff_of A A k < float_limit"
    by (simp add: diff_of_self float_limit_def)
  have "foldl (\<lambda>t k. fadd t (Finite (round_double (real_of_int (diff_of A A k)))))
          (Finite (real_of_int 0)) (keys A) =
        Finite (real_of_int (0 + (\<Sum>k\<leftarrow>keys A. diff_of A A k)))"
    by (intro total_exact) (simp_all add: diff_of_self)
  then have td: "foldl (\<lambda>t k. fadd t (Finite (round_double (real_of_int (diff_of A A k)))))
          (Finite 0) (keys A) = Finite 0"
    by (simp add: diff_of_self)
  have m: "(if 0 < int (length A) then fdiv_len (Finite 0) (int (length A))
            else Inr (Finite 0)) = Inr (Finite 0)"
  proof (cases "0 < int (length A)")
    case True
    then have "1 \<le> int (length A)" by linarith
    then have "fdiv_len (Finite 0) (int (length A)) = Inr (Finite 0)"
      by (rule fdiv_len_zero)
    with True show ?thesis by (simp only: if_True)
  next
    case False
    then show ?thesis by (simp only: if_False)
  qed
  have "interpret_mae_float (Finite 0) = ''Excellent (matches human analyst very closely)''"
    by (simp add: interpret_mae_float_def interpret_mae_def)
  with calculate_mae_fits [OF refl fits] show ?thesis
    unfolding td m by auto
qed

section \<open>Properties of \<open>interpret_mae\<close>\<close>

text \<open>
  Claim C4. \<open>interpret_mae\<close> maps every real to one of four labels, by half-open intervals:
  the Excellent label exactly when \<open>m < 0.50\<close>, the Good label exactly when
  \<open>0.50 \<le> m < 0.75\<close>, the Acceptable label exactly when \<open>0.75 \<le> m < 1.00\<close> and the Poor
  label exactly when \<open>1.00 \<le> m\<close>. So \<open>0.49\<close> is Excellent, \<open>0.50\<close> and \<open>0.74\<close> are Good,
  \<open>0.75\<close> and \<open>0.99\<close> are Acceptable, \<open>1.00\<close> is Poor, and every negative value is
  Excellent.
\<close>

theorem interpret_mae_tiers:
  "((interpret_mae m = ''Excellent (matches human analyst very closely)'') = (m < 0.50)) \<and>
   ((interpret_mae m = ''Good (production-ready)'') = (0.50 \<le> m \<and> m < 0.75)) \<and>
   ((interpret_mae m = ''Acceptable (needs minor calibration)'') = (0.75 \<le> m \<and> m < 1.00)) \<and>
   ((interpret_mae m = ''Poor (needs major fixes)'') = (1.00 \<le> m)) \<and>
   interpret_mae 0.49 = ''Excellent (matches human analyst very closely)'' \<and>
   interpret_mae 0.50 = ''Good (production-ready)'' \<and>
   interpret_mae 0.74 = ''Good (production-ready)'' \<and>
   interpret_mae 0.75 = ''Acceptable (needs minor calibration)'' \<and>
   interpret_mae 0.99 = ''Acceptable (needs minor calibration)'' \<and>
   interpret_mae 1.00 = ''Poor (needs major fixes)'' \<and>
   (m < 0 \<longrightarrow> interpret_mae m = ''Excellent (matches human analyst very closely)'')"
proof -
  have general:
    "((interpret_mae m = ''Excellent (matches human analyst very closely)'') = (m < 0.50)) \<and>
     ((interpret_mae m = ''Good (production-ready)'') = (0.50 \<le> m \<and> m < 0.75)) \<and>
     ((interpret_mae m = ''Acceptable (needs minor calibration)'') = (0.75 \<le> m \<and> m < 1.00)) \<and>
     ((interpret_mae m = ''Poor (needs major fixes)'') = (1.00 \<le> m))"
    by (simp add: interpret_mae_def)
  have points:
    "interpret_mae 0.49 = ''Excellent (matches human analyst very closely)'' \<and>
     interpret_mae 0.50 = ''Good (production-ready)'' \<and>
     interpret_mae 0.74 = ''Good (production-ready)'' \<and>
     interpret_mae 0.75 = ''Acceptable (needs minor calibration)'' \<and>
     interpret_mae 0.99 = ''Acceptable (needs minor calibration)'' \<and>
     interpret_mae 1.00 = ''Poor (needs major fixes)''"
    by (simp add: interpret_mae_def)
  have negative: "m < 0 \<longrightarrow> interpret_mae m = ''Excellent (matches human analyst very closely)''"
    by (simp add: interpret_mae_def)
  from general points negative show ?thesis
    by blast
qed

theorem interpret_mae_tiers_witness:
  "(- 1 :: real) < 0 \<and> interpret_mae (- 1) = ''Excellent (matches human analyst very closely)''"
proof -
  have neg: "(- 1 :: real) < 0"
    by simp
  from interpret_mae_tiers [of "- 1"] have
    "(- 1 :: real) < 0 \<longrightarrow> interpret_mae (- 1) = ''Excellent (matches human analyst very closely)''"
    by (elim conjE)
  with neg show ?thesis
    by blast
qed

text \<open>The rank tells the four labels apart, in the order Excellent, Good, Acceptable,
  Poor.\<close>

lemma tier_rank_labels:
  "tier_rank ''Excellent (matches human analyst very closely)'' = 0"
  "tier_rank ''Good (production-ready)'' = 1"
  "tier_rank ''Acceptable (needs minor calibration)'' = 2"
  "tier_rank ''Poor (needs major fixes)'' = 3"
  by (simp_all add: tier_rank_def)

text \<open>
  Claim C10. \<open>interpret_mae\<close> is monotone: for \<open>mae1 \<le> mae2\<close> the label of \<open>mae1\<close> is at
  least as good as the label of \<open>mae2\<close>, in the order Excellent, Good, Acceptable, Poor.
\<close>

theorem interpret_mae_monotone:
  assumes "mae1 \<le> mae2"
  shows "tier_rank (interpret_mae mae1) \<le> tier_rank (interpret_mae mae2)"
  using assms by (simp add: interpret_mae_def tier_rank_def)

theorem interpret_mae_monotone_witness:
  "(0.3 :: real) \<le> 0.8 \<and> tier_rank (interpret_mae 0.3) = 0 \<and> tier_rank (interpret_mae 0.8) = 2 \<and>
   tier_rank (interpret_mae 0.3) \<le> tier_rank (interpret_mae 0.8)"
proof -
  have le: "(0.3 :: real) \<le> 0.8"
    by simp
  have "tier_rank (interpret_mae 0.3) = 0" "tier_rank (interpret_mae 0.8) = 2"
    by (simp_all add: interpret_mae_def tier_rank_def)
  with le interpret_mae_monotone [OF le] show ?thesis
    by blast
qed

section \<open>The loop of \<open>calculate_batch_mae\<close>\<close>

text \<open>While \<open>calculate_mae\<close> returns on every chat, the loop appends the result of each
  chat, in the order of the chats.\<close>

lemma batch_loop_ok:
  "\<forall>c\<in>set chats. \<exists>r. calculate_mae (ai_scores c) (human_scores c) = Inr r \<Longrightarrow>
   \<exists>rs. batch_loop chats acc = Inr (acc @ rs) \<and>
        map Inr rs = map (\<lambda>c. calculate_mae (ai_scores c) (human_scores c)) chats"
proof (induction chats arbitrary: acc)
  case Nil
  then show ?case by simp
next
  case (Cons c cs)
  from Cons.prems obtain r where r: "calculate_mae (ai_scores c) (human_scores c) = Inr r"
    by auto
  from Cons.prems have "\<forall>c\<in>set cs. \<exists>r. calculate_mae (ai_scores c) (human_scores c) = Inr r"
    by simp
  from Cons.IH [OF this, of "acc @ [r]"] obtain rs where
    rs: "batch_loop cs (acc @ [r]) = Inr ((acc @ [r]) @ rs)"
        "map Inr rs = map (\<lambda>c. calculate_mae (ai_scores c) (human_scores c)) cs"
    by blast
  have "batch_loop (c # cs) acc = Inr (acc @ (r # rs))"
    using r rs(1) by simp
  moreover have "map Inr (r # rs) =
      map (\<lambda>c. calculate_mae (ai_scores c) (human_scores c)) (c # cs)"
    using r rs(2) by simp
  ultimately show ?case
    by blast
qed

text \<open>The loop stops at the first chat on which \<open>calculate_mae\<close> raises, with its
  exception.\<close>

lemma batch_loop_first_error:
  "\<forall>x\<in>set pre. \<exists>r. calculate_mae (ai_scores x) (human_scores x) = Inr r \<Longrightarrow>
   calculate_mae (ai_scores c) (human_scores c) = Inl e \<Longrightarrow>
   batch_loop (pre @ c # post) acc = Inl e"
proof (induction pre arbitrary: acc)
  case Nil
  then show ?case by simp
next
  case (Cons x pre)
  from Cons.prems(1) obtain r where r: "calculate_mae (ai_scores x) (human_scores x) = Inr r"
    by auto
  from Cons.prems have "batch_loop (pre @ c # post) (acc @ [r]) = Inl e"
    by (intro Cons.IH) simp_all
  with r show ?case by simp
qed

lemma calculate_batch_mae_first_error:
  assumes "\<forall>x\<in>set pre. \<exists>r. calculate_mae (ai_scores x) (human_scores x) = Inr r"
    and "calculate_mae (ai_scores c) (human_scores c) = Inl e"
  shows "calculate_batch_mae builtin_sum (pre @ c # post) = Inl e"
  using batch_loop_first_error [OF assms, of post "[]"] by (simp add: calculate_batch_mae_def)

lemma calculate_batch_mae_returns:
  assumes "\<forall>c\<in>set chats. \<exists>r. calculate_mae (ai_scores c) (human_scores c) = Inr r"
  shows "\<exists>avg results. calculate_batch_mae builtin_sum chats = Inr (avg, results) \<and>
     map Inr results = map (\<lambda>c. calculate_mae (ai_scores c) (human_scores c)) chats \<and>
     length results = length chats \<and>
     (chats \<noteq> [] \<longrightarrow>
        fdiv_len (builtin_sum (map mae results)) (int (length results)) = Inr avg) \<and>
     (chats = [] \<longrightarrow> avg = Finite 0)"
proof -
  from batch_loop_ok [OF assms, of "[]"] obtain rs where
    rs: "batch_loop chats [] = Inr rs"
        "map Inr rs = map (\<lambda>c. calculate_mae (ai_scores c) (human_scores c)) chats"
    by auto
  from rs(2) have len: "length rs = length chats"
    by (rule map_eq_imp_length_eq)
  then have emp: "rs = [] \<longleftrightarrow> chats = []"
    by auto
  show ?thesis
  proof (cases "chats = []")
    case True
    with rs emp show ?thesis
      by (simp add: calculate_batch_mae_def)
  next
    case False
    with emp len have "1 \<le> int (length rs)"
      by (cases rs) simp_all
    from fdiv_len_returns [OF this, of "builtin_sum (map mae rs)"] obtain avg where
      "fdiv_len (builtin_sum (map mae rs)) (int (length rs)) = Inr avg"
      by blast
    with rs len emp False show ?thesis
      by (simp add: calculate_batch_mae_def)
  qed
qed

lemma calculate_batch_mae_fails:
  assumes "c \<in> set chats" and "calculate_mae (ai_scores c) (human_scores c) = Inl e"
  shows "\<exists>pre c' post e'. chats = pre @ c' # post \<and>
     (\<forall>x\<in>set pre. \<exists>r. calculate_mae (ai_scores x) (human_scores x) = Inr r) \<and>
     calculate_mae (ai_scores c') (human_scores c') = Inl e' \<and>
     calculate_batch_mae builtin_sum chats = Inl e'"
proof -
  from assms have "\<exists>x\<in>set chats. \<exists>e. calculate_mae (ai_scores x) (human_scores x) = Inl e"
    by blast
  then obtain pre c' post where
    split: "chats = pre @ c' # post"
    and c': "\<exists>e. calculate_mae (ai_scores c') (human_scores c') = Inl e"
    and pre: "\<forall>x\<in>set pre. \<not> (\<exists>e. calculate_mae (ai_scores x) (human_scores x) = Inl e)"
    by (auto simp: split_list_first_prop_iff)
  from c' obtain e' where e': "calculate_mae (ai_scores c') (human_scores c') = Inl e'"
    by blast
  have ok: "\<forall>x\<in>set pre. \<exists>r. calculate_mae (ai_scores x) (human_scores x) = Inr r"
  proof
    fix x assume "x \<in> set pre"
    with pre have "\<not> (\<exists>e. calculate_mae (ai_scores x) (human_scores x) = Inl e)"
      by blast
    then show "\<exists>r. calculate_mae (ai_scores x) (human_scores x) = Inr r"
      by (cases "calculate_mae (ai_scores x) (human_scores x)") auto
  qed
  from calculate_batch_mae_first_error [OF ok e'] split ok e' show ?thesis
    by blast
qed

lemma all_return:
  assumes "\<forall>c\<in>set chats. set (keys (ai_scores c)) = set (keys (human_scores c)) \<and>
             scores_fit (ai_scores c) (human_scores c)"
  shows "\<forall>c\<in>set chats. \<exists>r. calculate_mae (ai_scores c) (human_scores c) = Inr r"
  using assms calculate_mae_returns by blast

section \<open>Properties of \<open>calculate_batch_mae\<close>\<close>




text \<open>
  Claim C6, as stated, asks that a batch with a malformed chat fails with the
  \<^verbatim>\<open>ValueError\<close> and that the error tells which chat was malformed. A batch whose first
  chat (\<^verbatim>\<open>chat_id\<close> 27811316) is malformed and a batch whose second chat (\<^verbatim>\<open>chat_id\<close>
  27811317) is malformed raise the same \<^verbatim>\<open>ValueError\<close>, whose message names neither an
  identifier nor an index; and a batch whose malformed chat comes after a chat with a
  difference too large for a float raises \<^verbatim>\<open>OverflowError\<close>.
\<close>

theorem calculate_batch_mae_error_without_record:
  "calculate_batch_mae sum_left_to_right
     [\<lparr>chat_id = ''27811316'', ai_scores = [(''A'', 1)], human_scores = [(''B'', 1)]\<rparr>,
      \<lparr>chat_id = ''27811317'', ai_scores = [(''A'', 1)], human_scores = [(''A'', 1)]\<rparr>]
     = Inl (ValueError ''AI and human scores must have the same KPIs'') \<and>
   calculate_batch_mae sum_left_to_right
     [\<lparr>chat_id = ''27811316'', ai_scores = [(''A'', 1)], human_scores = [(''A'', 1)]\<rparr>,
      \<lparr>chat_id = ''27811317'', ai_scores = [(''A'', 1)], human_scores = [(''B'', 1)]\<rparr>]
     = Inl (ValueError ''AI and human scores must have the same KPIs'') \<and>
   calculate_batch_mae sum_left_to_right
     [\<lparr>chat_id = ''27811316'', ai_scores = [(''A'', 10 ^ 400)], human_scores = [(''A'', 0)]\<rparr>,
      \<lparr>chat_id = ''27811317'', ai_scores = [(''A'', 1)], human_scores = [(''B'', 1)]\<rparr>]
     = Inl OverflowError"
proof -
  have bad: "calculate_mae [(''A'', 1)] [(''B'', 1)] =
      Inl (ValueError ''AI and human scores must have the same KPIs'')"
    by (rule calculate_mae_mismatch) (simp add: keys_def)
  have "set (keys [(''A'', 1 :: int)]) = set (keys [(''A'', 1 :: int)])"
    by simp
  moreover have "scores_fit [(''A'', 1)] [(''A'', 1)]"
    by (simp add: scores_fit_def keys_def)
  ultimately obtain r where good: "calculate_mae [(''A'', 1)] [(''A'', 1)] = Inr r"
    using calculate_mae_returns by blast
  have "float_limit \<le> diff_of [(''A'', 10 ^ 400)] [(''A'', 0)] ''A''"
    by (simp add: diff_of_def float_limit_def)
  then have big: "calculate_mae [(''A'', 10 ^ 400)] [(''A'', 0)] = Inl OverflowError"
    by (intro calculate_mae_too_large) (simp_all add: keys_def)
  from bad good big show ?thesis
    by (simp add: calculate_batch_mae_def)
qed

text \<open>
  Claim C6, amended. If the two dictionaries of some chat disagree on their keys, the batch
  fails as a whole and no partial result is returned. The error is the one that
  \<open>calculate_mae\<close> raises on the earliest chat on which it raises, whatever follows that
  chat: the \<^verbatim>\<open>ValueError\<close> of the earliest chat with disagreeing keys when every chat
  before it has agreeing keys and absolute differences below \<open>2 ^ 1024 - 2 ^ 970\<close>, and the
  \<^verbatim>\<open>OverflowError\<close> of an earlier chat otherwise. The \<^verbatim>\<open>ValueError\<close> is the fixed message
  of \<open>calculate_mae\<close>.
\<close>

theorem calculate_batch_mae_fail_fast:
  "((\<exists>c\<in>set chats. set (keys (ai_scores c)) \<noteq> set (keys (human_scores c))) \<longrightarrow>
      calculate_batch_mae builtin_sum chats =
        Inl (ValueError ''AI and human scores must have the same KPIs'') \<or>
      calculate_batch_mae builtin_sum chats = Inl OverflowError) \<and>
   ((\<forall>x\<in>set pre. \<exists>r. calculate_mae (ai_scores x) (human_scores x) = Inr r) \<and>
    calculate_mae (ai_scores c) (human_scores c) = Inl e \<longrightarrow>
      calculate_batch_mae builtin_sum (pre @ c # post) = Inl e) \<and>
   ((\<forall>x\<in>set pre. set (keys (ai_scores x)) = set (keys (human_scores x)) \<and>
                 scores_fit (ai_scores x) (human_scores x)) \<and>
    set (keys (ai_scores c)) \<noteq> set (keys (human_scores c)) \<longrightarrow>
      calculate_batch_mae builtin_sum (pre @ c # post) =
        Inl (ValueError ''AI and human scores must have the same KPIs''))"
proof (intro conjI impI)
  assume "\<exists>c\<in>set chats. set (keys (ai_scores c)) \<noteq> set (keys (human_scores c))"
  then obtain c where c: "c \<in> set chats"
    "calculate_mae (ai_scores c) (human_scores c) =
       Inl (ValueError ''AI and human scores must have the same KPIs'')"
    using calculate_mae_mismatch by blast
  from calculate_batch_mae_fails [OF c, of builtin_sum] obtain pre' c' post' e' where
    "chats = pre' @ c' # post'"
    "calculate_mae (ai_scores c') (human_scores c') = Inl e'"
    "calculate_batch_mae builtin_sum chats = Inl e'"
    by blast
  with calculate_mae_errors [of "ai_scores c'" "human_scores c'" e']
  show "calculate_batch_mae builtin_sum chats =
        Inl (ValueError ''AI and human scores must have the same KPIs'') \<or>
      calculate_batch_mae builtin_sum chats = Inl OverflowError"
    by auto
next
  assume "(\<forall>x\<in>set pre. \<exists>r. calculate_mae (ai_scores x) (human_scores x) = Inr r) \<and>
    calculate_mae (ai_scores c) (human_scores c) = Inl e"
  then show "calculate_batch_mae builtin_sum (pre @ c # post) = Inl e"
    using calculate_batch_mae_first_error by blast
next
  assume a: "(\<forall>x\<in>set pre. set (keys (ai_scores x)) = set (keys (human_scores x)) \<and>
                 scores_fit (ai_scores x) (human_scores x)) \<and>
    set (keys (ai_scores c)) \<noteq> set (keys (human_scores c))"
  then have "\<forall>x\<in>set pre. \<exists>r. calculate_mae (ai_scores x) (human_scores x) = Inr r"
    using all_return [of pre] by blast
  moreover from a have "calculate_mae (ai_scores c) (human_scores c) =
      Inl (ValueError ''AI and human scores must have the same KPIs'')"
    using calculate_mae_mismatch by blast
  ultimately show "calculate_batch_mae builtin_sum (pre @ c # post) =
        Inl (ValueError ''AI and human scores must have the same KPIs'')"
    by (rule calculate_batch_mae_first_error)
qed

theorem calculate_batch_mae_fail_fast_witness:
  "set (keys [(''A'', 1 :: int)]) = set (keys [(''A'', 3 :: int)]) \<and>
   set (keys [(''A'', 1 :: int)]) \<noteq> set (keys [(''B'', 1 :: int)]) \<and>
   calculate_batch_mae sum_left_to_right
     [\<lparr>chat_id = ''1'', ai_scores = [(''A'', 1)], human_scores = [(''A'', 3)]\<rparr>,
      \<lparr>chat_id = ''2'', ai_scores = [(''A'', 1)], human_scores = [(''B'', 1)]\<rparr>,
      \<lparr>chat_id = ''3'', ai_scores = [], human_scores = [(''C'', 0)]\<rparr>]
     = Inl (ValueError ''AI and human scores must have the same KPIs'')"
proof -
  let ?pre = "[\<lparr>chat_id = ''1'', ai_scores = [(''A'', 1)], human_scores = [(''A'', 3)]\<rparr>]"
  let ?c = "\<lparr>chat_id = ''2'', ai_scores = [(''A'', 1)], human_scores = [(''B'', 1)]\<rparr>"
  let ?post = "[\<lparr>chat_id = ''3'', ai_scores = [], human_scores = [(''C'', 0)]\<rparr>]"
  have k1: "set (keys [(''A'', 1 :: int)]) = set (keys [(''A'', 3 :: int)])"
    and k2: "set (keys [(''A'', 1 :: int)]) \<noteq> set (keys [(''B'', 1 :: int)])"
    by (simp_all add: keys_def)
  have hyp: "(\<forall>x\<in>set ?pre. set (keys (ai_scores x)) = set (keys (human_scores x)) \<and>
                 scores_fit (ai_scores x) (human_scores x)) \<and>
    set (keys (ai_scores ?c)) \<noteq> set (keys (human_scores ?c))"
    by (simp add: keys_def scores_fit_def)
  have "calculate_batch_mae sum_left_to_right (?pre @ ?c # ?post) =
      Inl (ValueError ''AI and human scores must have the same KPIs'')"
    by (rule calculate_batch_mae_fail_fast
        [of "[]" sum_left_to_right ?pre ?c OverflowError ?post,
         THEN conjunct2, THEN conjunct2, THEN mp, OF hyp])
  then have "calculate_batch_mae sum_left_to_right
     [\<lparr>chat_id = ''1'', ai_scores = [(''A'', 1)], human_scores = [(''A'', 3)]\<rparr>,
      \<lparr>chat_id = ''2'', ai_scores = [(''A'', 1)], human_scores = [(''B'', 1)]\<rparr>,
      \<lparr>chat_id = ''3'', ai_scores = [], human_scores = [(''C'', 0)]\<rparr>]
     = Inl (ValueError ''AI and human scores must have the same KPIs'')"
    by (simp only: append.simps)
  with k1 k2 show ?thesis
    by blast
qed

text \<open>
  Claim C9, as stated, has \<open>calculate_batch_mae\<close> succeed on any list of chats whose two
  dictionaries agree on their keys, chat by chat. A single chat with agreeing keys and a
  difference of \<open>2 ^ 1024\<close> makes it raise \<^verbatim>\<open>OverflowError\<close>.
\<close>

theorem calculate_batch_mae_agreeing_overflow:
  "calculate_batch_mae sum_left_to_right
     [\<lparr>chat_id = ''a'', ai_scores = [(''Tone'', 0)], human_scores = [(''Tone'', 2 ^ 1024)]\<rparr>]
     = Inl OverflowError"
proof -
  have "float_limit \<le> diff_of [(''Tone'', 0)] [(''Tone'', 2 ^ 1024)] ''Tone''"
    by (simp add: diff_of_def float_limit_def)
  then have "calculate_mae [(''Tone'', 0)] [(''Tone'', 2 ^ 1024)] = Inl OverflowError"
    by (intro calculate_mae_too_large) (simp_all add: keys_def)
  then show ?thesis
    by (simp add: calculate_batch_mae_def)
qed

text \<open>
  Claim C9, amended. \<open>calculate_batch_mae\<close> returns exactly when the two dictionaries of
  each chat agree with each other on their keys and have absolute differences below
  \<open>2 ^ 1024 - 2 ^ 970\<close>: nothing relates the keys of one chat to those of another, so chats
  with different key sets, of different sizes, make a batch that succeeds.
\<close>

theorem calculate_batch_mae_succeeds_iff:
  "(\<exists>avg results. calculate_batch_mae builtin_sum chats = Inr (avg, results)) =
   (\<forall>c\<in>set chats. set (keys (ai_scores c)) = set (keys (human_scores c)) \<and>
                   scores_fit (ai_scores c) (human_scores c))"
proof
  assume ok: "\<exists>avg results. calculate_batch_mae builtin_sum chats = Inr (avg, results)"
  show "\<forall>c\<in>set chats. set (keys (ai_scores c)) = set (keys (human_scores c)) \<and>
                   scores_fit (ai_scores c) (human_scores c)"
  proof
    fix c assume c: "c \<in> set chats"
    show "set (keys (ai_scores c)) = set (keys (human_scores c)) \<and>
                   scores_fit (ai_scores c) (human_scores c)"
    proof (cases "calculate_mae (ai_scores c) (human_scores c)")
      case (Inl e)
      from calculate_batch_mae_fails [OF c Inl, of builtin_sum] ok show ?thesis
        by auto
    next
      case (Inr r)
      then show ?thesis
        by (rule calculate_mae_returns_only_if)
    qed
  qed
next
  assume "\<forall>c\<in>set chats. set (keys (ai_scores c)) = set (keys (human_scores c)) \<and>
                   scores_fit (ai_scores c) (human_scores c)"
  from calculate_batch_mae_returns [OF all_return [OF this], of builtin_sum]
  show "\<exists>avg results. calculate_batch_mae builtin_sum chats = Inr (avg, results)"
    by blast
qed

theorem calculate_batch_mae_succeeds_iff_witness:
  "set (keys [(''Clarity'', 2), (''Retention'', 5 :: int)]) =
   set (keys [(''Retention'', 1), (''Clarity'', 2 :: int)]) \<and>
   set (keys [(''Tone'', 0 :: int)]) = set (keys [(''Tone'', 4 :: int)]) \<and>
   set (keys [(''Clarity'', 2), (''Retention'', 5 :: int)]) \<noteq> set (keys [(''Tone'', 0 :: int)]) \<and>
   (\<exists>avg results. calculate_batch_mae sum_left_to_right
        [\<lparr>chat_id = ''a'', ai_scores = [(''Clarity'', 2), (''Retention'', 5)],
           human_scores = [(''Retention'', 1), (''Clarity'', 2)]\<rparr>,
         \<lparr>chat_id = ''b'', ai_scores = [(''Tone'', 0)], human_scores = [(''Tone'', 4)]\<rparr>,
         \<lparr>chat_id = ''c'', ai_scores = [], human_scores = []\<rparr>] = Inr (avg, results))"
proof -
  let ?chats = "[\<lparr>chat_id = ''a'', ai_scores = [(''Clarity'', 2), (''Retention'', 5)],
                   human_scores = [(''Retention'', 1), (''Clarity'', 2)]\<rparr>,
                 \<lparr>chat_id = ''b'', ai_scores = [(''Tone'', 0)], human_scores = [(''Tone'', 4)]\<rparr>,
                 \<lparr>chat_id = ''c'', ai_scores = [], human_scores = []\<rparr>]"
  have ok: "\<forall>c\<in>set ?chats. set (keys (ai_scores c)) = set (keys (human_scores c)) \<and>
                   scores_fit (ai_scores c) (human_scores c)"
    by (auto simp: keys_def scores_fit_def)
  with calculate_batch_mae_succeeds_iff [of sum_left_to_right ?chats]
  have "\<exists>avg results. calculate_batch_mae sum_left_to_right ?chats = Inr (avg, results)"
    by (rule iffD2)
  moreover have "set (keys [(''Clarity'', 2), (''Retention'', 5 :: int)]) =
      set (keys [(''Retention'', 1), (''Clarity'', 2 :: int)])"
    by (auto simp: keys_def)
  moreover have "set (keys [(''Tone'', 0 :: int)]) = set (keys [(''Tone'', 4 :: int)])"
    by (simp add: keys_def)
  moreover have "set (keys [(''Clarity'', 2), (''Retention'', 5 :: int)]) \<noteq>
      set (keys [(''Tone'', 0 :: int)])"
    by (auto simp: keys_def)
  ultimately show ?thesis
    by blast
qed

end
